theory Spec2Isabelle
  imports Complex_Main "HOL-Library.Char_ord" "HOL-Library.List_Lexorder" "HOL-Library.Multiset"
    "HOL-Library.Word"
begin

section \<open>The meta-model (internal/generate/model.go)\<close>

text \<open>
  The Go structs of \<^verbatim>\<open>model.go\<close>. A Go \<^verbatim>\<open>string\<close> is a byte string and is modelled
  as \<^typ>\<open>string\<close>; a pointer field that may be nil is an \<^typ>\<open>'a option\<close>; a slice is a list.
  Only the fields the generator reads are kept: \<^verbatim>\<open>Since\<close>, \<^verbatim>\<open>StringValue\<close>,
  \<^verbatim>\<open>IntValue\<close>, \<^verbatim>\<open>BoolValue\<close>, \<^verbatim>\<open>ErrorData\<close>, \<^verbatim>\<open>PartialResult\<close>,
  \<^verbatim>\<open>RegistrationMethod\<close>, \<^verbatim>\<open>RegistrationOptions\<close>, \<^verbatim>\<open>SupportsCustomValues\<close> and
  \<^verbatim>\<open>EnumBaseType.Kind\<close> are written by the JSON decoder and never read again.
  Field names carry a prefix for the struct they belong to, since HOL has one name space
  for all selectors.
\<close>

datatype Type =
  Type (t_Kind: string) (t_Name: string) (t_Element: "Type option") (t_Key: "Type option")
    (t_MapValue: "Type option") (t_Items: "Type list") (t_Literal: "LiteralType option")
and LiteralType =
  LiteralType (l_Properties: "Property list")
and Property =
  Property (p_Documentation: string) (p_Name: string) (p_Optional: bool) (p_Proposed: bool)
    (p_Type: Type)

text \<open>
  \<^verbatim>\<open>EnumerationValue.Value\<close> has the Go type \<^verbatim>\<open>any\<close>. The JSON decoder stores a string,
  a \<^verbatim>\<open>float64\<close>, a bool or nil there; \<^verbatim>\<open>formatNumericValue\<close> also accepts \<^verbatim>\<open>int64\<close> and
  \<^verbatim>\<open>int\<close> (both 64 bits wide here). A finite \<^verbatim>\<open>float64\<close> is modelled by the rational
  number it denotes.
\<close>

datatype float64 = Finite rat | PosInf | NegInf | NaN

datatype any = AString string | AFloat64 float64 | AInt64 "64 word" | AInt "64 word"
  | ABool bool | ANil

record Structure =
  s_Documentation :: string
  s_Extends :: "Type list"
  s_Mixins :: "Type list"
  s_Name :: string
  s_Properties :: "Property list"
  s_Proposed :: bool

record EnumerationValue =
  v_Documentation :: string
  v_Name :: string
  v_Proposed :: bool
  v_Value :: any

record EnumBaseType =
  b_Name :: string

record Enumeration =
  e_Documentation :: string
  e_Name :: string
  e_Proposed :: bool
  e_Type :: EnumBaseType
  e_Values :: "EnumerationValue list"

record TypeAlias =
  a_Documentation :: string
  a_Name :: string
  a_Proposed :: bool
  a_Type :: Type

record Request =
  r_Documentation :: string
  r_MessageDirection :: string
  r_Method :: string
  r_Params :: "Type option"
  r_Proposed :: bool
  r_Result :: "Type option"

record Notification =
  n_Documentation :: string
  n_MessageDirection :: string
  n_Method :: string
  n_Params :: "Type option"
  n_Proposed :: bool

record MetaData =
  md_Version :: string

record Model =
  m_MetaData :: MetaData
  m_Requests :: "Request list"
  m_Notifications :: "Notification list"
  m_Structures :: "Structure list"
  m_Enumerations :: "Enumeration list"
  m_TypeAliases :: "TypeAlias list"

section \<open>The generator and its indices\<close>

text \<open>
  The \<^verbatim>\<open>Generator\<close> struct. \<^verbatim>\<open>structs\<close> is the name index built by \<^verbatim>\<open>NewGenerator\<close>;
  the four other indices (\<^verbatim>\<open>enums\<close>, \<^verbatim>\<open>aliases\<close>, \<^verbatim>\<open>requests\<close>, \<^verbatim>\<open>notifs\<close>) are
  built there too and read nowhere, so they are left out. \<^verbatim>\<open>namedLiterals\<close> is a Go map
  from generated name to literal; it is kept as an association list, updated as a map is
  (\<open>mapStore\<close>). \<^verbatim>\<open>literalCounter\<close> is a Go \<^verbatim>\<open>int\<close>, 64 bits wide.
\<close>

record Generator =
  Model :: Model
  structs :: "string \<rightharpoonup> Structure"
  namedLiterals :: "(string \<times> LiteralType) list"
  literalCounter :: "64 word"

fun mapStore :: "'k \<Rightarrow> 'v \<Rightarrow> ('k \<times> 'v) list \<Rightarrow> ('k \<times> 'v) list" where
  "mapStore k v [] = [(k, v)]"
| "mapStore k v ((k', v') # kvs) =
     (if k = k' then (k, v) # kvs else (k', v') # mapStore k v kvs)"

text \<open>
  \<^verbatim>\<open>NewGenerator\<close>: the loop \<^verbatim>\<open>gen.structs[model.Structures[idx].Name] = &model.Structures[idx]\<close>
  runs over the slice in order, so a later structure replaces an earlier one of the same
  name.
\<close>

fun indexStructures :: "Structure list \<Rightarrow> (string \<rightharpoonup> Structure) \<Rightarrow> (string \<rightharpoonup> Structure)" where
  "indexStructures [] idx = idx"
| "indexStructures (s # ss) idx = indexStructures ss (idx(s_Name s \<mapsto> s))"

definition NewGenerator :: "Model \<Rightarrow> Generator" where
  "NewGenerator model =
     \<lparr>Model = model, structs = indexStructures (m_Structures model) Map.empty,
      namedLiterals = [], literalCounter = 0\<rparr>"

section \<open>Property collection (internal/generate/output.go)\<close>

text \<open>
  The loop that occurs three times in \<^verbatim>\<open>collectPropertiesImpl\<close>:
  \<^verbatim>\<open>for _, p := range ps { if !seen[p.Name] { seen[p.Name] = true; result = append(result, p) } }\<close>.
\<close>

fun appendUnseen ::
  "Property list \<Rightarrow> string set \<Rightarrow> Property list \<Rightarrow> string set \<times> Property list" where
  "appendUnseen [] seen result = (seen, result)"
| "appendUnseen (p # ps) seen result =
     (if p_Name p \<in> seen then appendUnseen ps seen result
      else appendUnseen ps (insert (p_Name p) seen) (result @ [p]))"

text \<open>
  \<^verbatim>\<open>collectPropertiesImpl\<close> recurses through the index, which may be cyclic, so the model
  carries fuel: the first argument bounds the depth of the recursion, and \<^const>\<open>None\<close> is
  "ran out of fuel". The \<^verbatim>\<open>visited\<close> map is shared by the whole query and mutated in
  place; the model passes it in and returns it. It is kept as the list of the names marked
  so far, most recent first (\<^verbatim>\<open>visited[n]\<close> is membership, \<^verbatim>\<open>visited[n] = true\<close> is
  consing), so that the list also records how often a name was marked.
  \<open>collectBases\<close> is the loop over \<^verbatim>\<open>structure.Extends\<close>, and again over
  \<^verbatim>\<open>structure.Mixins\<close>.
\<close>

fun collectPropertiesImpl ::
    "nat \<Rightarrow> Generator \<Rightarrow> Structure \<Rightarrow> string list \<Rightarrow> (Property list \<times> string list) option"
  and collectBases ::
    "nat \<Rightarrow> Generator \<Rightarrow> Type list \<Rightarrow> string list \<Rightarrow> string set \<Rightarrow> Property list \<Rightarrow>
       (string list \<times> string set \<times> Property list) option" where
  "collectPropertiesImpl 0 g s visited =
     (if s_Name s \<in> set visited then Some ([], visited) else None)"
| "collectPropertiesImpl (Suc n) g s visited =
     (if s_Name s \<in> set visited then Some ([], visited)
      else
        (case appendUnseen (s_Properties s) {} [] of (seen, result) \<Rightarrow>
          (case collectBases n g (s_Extends s) (s_Name s # visited) seen result of
             None \<Rightarrow> None
           | Some (visited1, seen1, result1) \<Rightarrow>
               (case collectBases n g (s_Mixins s) visited1 seen1 result1 of
                  None \<Rightarrow> None
                | Some (visited2, seen2, result2) \<Rightarrow> Some (result2, visited2)))))"
| "collectBases n g [] visited seen result = Some (visited, seen, result)"
| "collectBases n g (ext # exts) visited seen result =
     (if t_Kind ext = ''reference'' then
        (case structs g (t_Name ext) of
           Some base \<Rightarrow>
             (case collectPropertiesImpl n g base visited of
                None \<Rightarrow> None
              | Some (ps, visited1) \<Rightarrow>
                  (case appendUnseen ps seen result of (seen1, result1) \<Rightarrow>
                     collectBases n g exts visited1 seen1 result1))
         | None \<Rightarrow> collectBases n g exts visited seen result)
      else collectBases n g exts visited seen result)"

text \<open>
  \<^verbatim>\<open>collectProperties\<close> starts a query with an empty visited map. The fuel is one more
  than the number of structures of the model, which is enough
  (\<open>collectProperties_total\<close> below).
\<close>

definition collectProperties :: "Generator \<Rightarrow> Structure \<Rightarrow> Property list option" where
  "collectProperties g s =
     map_option fst (collectPropertiesImpl (Suc (length (m_Structures (Model g)))) g s [])"

subsection \<open>The collector as the specification words it\<close>

text \<open>
  The specification describes the result of a query by its contents: the structure's own
  properties, then what is collected from each \<^verbatim>\<open>extends\<close> entry, then from each
  \<^verbatim>\<open>mixins\<close> entry, where the first property of a name wins. \<open>firstWins\<close> keeps the
  first property of every name, in order. \<open>collectedFrom\<close> is the concatenation of
  what the collector returns for each entry of a list, in declaration order, an entry that
  is no reference or names no indexed structure giving nothing; the visited names are
  those of the running query.
\<close>

function firstWins :: "Property list \<Rightarrow> Property list" where
  "firstWins [] = []"
| "firstWins (p # ps) = p # firstWins (filter (\<lambda>q. p_Name q \<noteq> p_Name p) ps)"
  by pat_completeness auto
termination
  by (relation "measure length") (auto simp: less_Suc_eq_le)

fun collectedFrom ::
  "nat \<Rightarrow> Generator \<Rightarrow> Type list \<Rightarrow> string list \<Rightarrow> (Property list \<times> string list) option" where
  "collectedFrom n g [] visited = Some ([], visited)"
| "collectedFrom n g (e # es) visited =
     (case (if t_Kind e = ''reference'' then structs g (t_Name e) else None) of
        None \<Rightarrow> collectedFrom n g es visited
      | Some base \<Rightarrow>
          (case collectPropertiesImpl n g base visited of
             None \<Rightarrow> None
           | Some (ps, visited1) \<Rightarrow>
               (case collectedFrom n g es visited1 of
                  None \<Rightarrow> None
                | Some (qs, visited2) \<Rightarrow> Some (ps @ qs, visited2))))"

section \<open>Go library functions the generator calls\<close>

text \<open>
  The functions of \<^verbatim>\<open>strings\<close>, \<^verbatim>\<open>strconv\<close> and \<^verbatim>\<open>unicode\<close> that the generator uses,
  on byte strings. \<^verbatim>\<open>unicode.ToUpper\<close> and \<^verbatim>\<open>unicode.IsUpper\<close> are modelled on ASCII,
  the alphabet of the identifiers of the meta-model; a first rune outside ASCII is left as
  it is here.
\<close>

definition ToUpper :: "char \<Rightarrow> char" where
  "ToUpper c =
     (if 97 \<le> (of_char c :: nat) \<and> (of_char c :: nat) \<le> 122
      then char_of ((of_char c :: nat) - 32) else c)"

definition IsUpper :: "char \<Rightarrow> bool" where
  "IsUpper c = (65 \<le> (of_char c :: nat) \<and> (of_char c :: nat) \<le> 90)"

text \<open>
  \<^verbatim>\<open>runes := []rune(s); runes[0] = unicode.ToUpper(runes[0]); string(runes)\<close>. Every caller
  tests \<^verbatim>\<open>s == ""\<close> before, so the index is in range where this is used.
\<close>

fun upperFirst :: "string \<Rightarrow> string" where
  "upperFirst [] = []"
| "upperFirst (c # cs) = ToUpper c # cs"

definition HasPrefix :: "string \<Rightarrow> string \<Rightarrow> bool" where
  "HasPrefix s p = (take (length p) s = p)"

definition TrimPrefix :: "string \<Rightarrow> string \<Rightarrow> string" where
  "TrimPrefix s p = (if HasPrefix s p then drop (length p) s else s)"

text \<open>\<^verbatim>\<open>strings.Split(s, sep)\<close> for a separator of one byte: never the empty list.\<close>

fun Split :: "string \<Rightarrow> char \<Rightarrow> string list" where
  "Split [] sep = [[]]"
| "Split (c # cs) sep =
     (if c = sep then [] # Split cs sep
      else (case Split cs sep of [] \<Rightarrow> [[c]] | p # ps \<Rightarrow> (c # p) # ps))"

text \<open>\<^verbatim>\<open>strings.LastIndex(s, sep)\<close> for a separator of one byte: \<open>-1\<close> when it is absent.\<close>

definition LastIndex :: "string \<Rightarrow> char \<Rightarrow> int" where
  "LastIndex s sep =
     (if sep \<in> set s
      then int (length s) - 1 - int (length (takeWhile (\<lambda>c. c \<noteq> sep) (rev s)))
      else - 1)"

text \<open>\<^verbatim>\<open>strings.Replace(s, old, new, 1)\<close>: the first occurrence of \<^verbatim>\<open>old\<close> is replaced.\<close>

fun Replace1 :: "string \<Rightarrow> string \<Rightarrow> string \<Rightarrow> string" where
  "Replace1 [] old new = (if old = [] then new else [])"
| "Replace1 (c # cs) old new =
     (if HasPrefix (c # cs) old then new @ drop (length old) (c # cs)
      else c # Replace1 cs old new)"

text \<open>
  \<^verbatim>\<open>strconv.FormatInt(v, 10)\<close>, which is also \<^verbatim>\<open>strconv.Itoa\<close> and the verb \<^verbatim>\<open>%d\<close>: the
  decimal digits of a signed 64-bit integer.
\<close>

function digits :: "nat \<Rightarrow> string" where
  "digits n =
     (if n < 10 then [char_of (48 + n)] else digits (n div 10) @ [char_of (48 + n mod 10)])"
  by pat_completeness auto
termination
  by (relation "measure id") auto

declare digits.simps [simp del]

definition FormatInt :: "64 word \<Rightarrow> string" where
  "FormatInt v =
     (if sint v < 0 then CHR ''-'' # digits (nat (- sint v)) else digits (nat (sint v)))"

text \<open>
  What the generator takes from its environment and from library functions that are not
  modelled byte for byte: the year of \<^verbatim>\<open>time.Now()\<close>; the order in which \<^verbatim>\<open>range\<close>
  yields the keys of a map (Go leaves it open, so it is a function that may reorder the
  keys in any way); \<^verbatim>\<open>strconv.Quote\<close>, the verb \<^verbatim>\<open>%q\<close> on a string; \<^verbatim>\<open>%q\<close> on a value
  that is no string; \<^verbatim>\<open>strings.TrimSpace\<close>; and the result of converting to \<^verbatim>\<open>int64\<close> a
  \<^verbatim>\<open>float64\<close> that no \<^verbatim>\<open>int64\<close> represents, which the Go specification leaves to the
  implementation.
\<close>

record Runtime =
  Year :: "64 word"
  rangeOrder :: "string list \<Rightarrow> string list"
  Quote :: "string \<Rightarrow> string"
  badVerbQ :: "any \<Rightarrow> string"
  TrimSpace :: "string \<Rightarrow> string"
  convUnrepresentable :: "float64 \<Rightarrow> 64 word"

text \<open>The verbs \<^verbatim>\<open>%q\<close> and \<^verbatim>\<open>%v\<close> on a value of type \<^verbatim>\<open>any\<close>.\<close>

definition SprintQ :: "Runtime \<Rightarrow> any \<Rightarrow> string" where
  "SprintQ rt v = (case v of AString s \<Rightarrow> Quote rt s | _ \<Rightarrow> badVerbQ rt v)"

text \<open>
  The conversion \<^verbatim>\<open>int64(val)\<close> of a \<^verbatim>\<open>float64\<close>: the fraction is discarded (truncation
  towards zero) when the result fits.
\<close>

definition truncateToZero :: "rat \<Rightarrow> int" where
  "truncateToZero q = (if 0 \<le> q then \<lfloor>q\<rfloor> else \<lceil>q\<rceil>)"

definition int64_of_float64 :: "Runtime \<Rightarrow> float64 \<Rightarrow> 64 word" where
  "int64_of_float64 rt val =
     (case val of
        Finite q \<Rightarrow>
          (if - (2 ^ 63) \<le> truncateToZero q \<and> truncateToZero q < 2 ^ 63 then word_of_int (truncateToZero q)
           else convUnrepresentable rt val)
      | _ \<Rightarrow> convUnrepresentable rt val)"

section \<open>Names and type strings (the generator's helpers)\<close>

definition abbreviationPrefixes :: "(string \<times> string) list" where
  "abbreviationPrefixes =
     [(''Uri'', ''URI''), (''Id'', ''ID''), (''Json'', ''JSON''), (''Utf'', ''UTF''),
      (''Lsp'', ''LSP''), (''Url'', ''URL''), (''Html'', ''HTML''), (''Css'', ''CSS'')]"

definition fieldNameOverrides :: "(string \<times> string) list" where
  "fieldNameOverrides =
     [(''uri'', ''URI''), (''id'', ''ID''), (''jsonrpc'', ''JSONRPC''),
      (''documentUri'', ''DocumentURI''), (''baseUri'', ''BaseURI''),
      (''rootUri'', ''RootURI''), (''resourceUri'', ''ResourceURI''),
      (''oldUri'', ''OldURI''), (''newUri'', ''NewURI''), (''scopeUri'', ''ScopeURI''),
      (''textDocument'', ''TextDocument'')]"

text \<open>The loop over \<^verbatim>\<open>abbreviationPrefixes\<close> in \<^verbatim>\<open>GoFieldName\<close>.\<close>

fun applyPrefixes :: "(string \<times> string) list \<Rightarrow> string \<Rightarrow> string" where
  "applyPrefixes [] result = result"
| "applyPrefixes ((mixed, upper) # prefixes) result =
     (if HasPrefix result mixed then
        (case drop (length mixed) result of
           [] \<Rightarrow> upper
         | c # cs \<Rightarrow> if IsUpper c then upper @ c # cs else applyPrefixes prefixes result)
      else applyPrefixes prefixes result)"

definition GoFieldName :: "string \<Rightarrow> string" where
  "GoFieldName lspName =
     (if lspName = [] then []
      else (case map_of fieldNameOverrides lspName of
              Some mapped \<Rightarrow> mapped
            | None \<Rightarrow> applyPrefixes abbreviationPrefixes (upperFirst lspName)))"

definition GoMethodName :: "string \<Rightarrow> string" where
  "GoMethodName method =
     (let idx = LastIndex method CHR ''/'';
          name = (if 0 \<le> idx then drop (nat (idx + 1)) method else method)
      in if name = [] then [] else upperFirst name)"

text \<open>
  The loop of \<^verbatim>\<open>GoMethodNameFull\<close> and of \<^verbatim>\<open>methodConstName\<close> over the segments of a
  method string, writing to a \<^verbatim>\<open>strings.Builder\<close>.
\<close>

fun writeParts :: "string list \<Rightarrow> string \<Rightarrow> string" where
  "writeParts [] builder = builder"
| "writeParts (part # parts) builder =
     (if part = [] then writeParts parts builder
      else writeParts parts (builder @ upperFirst part))"

definition GoMethodNameFull :: "string \<Rightarrow> string" where
  "GoMethodNameFull method = writeParts (Split (TrimPrefix method ''$/'') CHR ''/'') []"

definition methodConstName :: "string \<Rightarrow> string" where
  "methodConstName method =
     writeParts (Split (TrimPrefix method ''$/'') CHR ''/'') ''Method''"

definition GoEnumValueName :: "string \<Rightarrow> string \<Rightarrow> string" where
  "GoEnumValueName enumName valueName =
     (if valueName = [] then enumName else enumName @ upperFirst valueName)"

definition JSONTag :: "string \<Rightarrow> bool \<Rightarrow> string" where
  "JSONTag lspName optional =
     (if optional then [CHR 0x60] @ ''json:'' @ [CHR 0x22] @ lspName @ '',omitempty'' @
        [CHR 0x22, CHR 0x60]
      else [CHR 0x60] @ ''json:'' @ [CHR 0x22] @ lspName @ [CHR 0x22, CHR 0x60])"

definition IsServerMethod :: "string \<Rightarrow> bool" where
  "IsServerMethod direction = (direction = ''clientToServer'' \<or> direction = ''both'')"

definition IsClientMethod :: "string \<Rightarrow> bool" where
  "IsClientMethod direction = (direction = ''serverToClient'' \<or> direction = ''both'')"

definition resolveBaseType :: "string \<Rightarrow> string" where
  "resolveBaseType name =
     (if name = ''string'' \<or> name = ''RegExp'' then ''string''
      else if name = ''DocumentUri'' then ''DocumentURI''
      else if name = ''URI'' then ''URI''
      else if name = ''integer'' then ''int32''
      else if name = ''uinteger'' then ''uint32''
      else if name = ''decimal'' then ''float64''
      else if name = ''boolean'' then ''bool''
      else if name = ''null'' then ''any''
      else if name = ''LSPAny'' \<or> name = ''LSPObject'' then ''any''
      else if name = ''LSPArray'' then ''[]any''
      else ''any'')"

definition needsPointerForNull :: "string \<Rightarrow> bool" where
  "needsPointerForNull goType =
     (if HasPrefix goType ''*'' \<or> HasPrefix goType ''[]'' \<or> HasPrefix goType ''map[''
      then False
      else if goType = ''any'' then False else True)"

section \<open>Type resolution (the generator's type resolver)\<close>

text \<open>
  \<^verbatim>\<open>promoteLiteral\<close> mutates the generator: it increments \<^verbatim>\<open>literalCounter\<close> and stores
  the literal in \<^verbatim>\<open>namedLiterals\<close>. The resolver therefore takes the generator and returns
  it with the type string.
\<close>

definition promoteLiteral :: "LiteralType option \<Rightarrow> Generator \<Rightarrow> string \<times> Generator" where
  "promoteLiteral lit g =
     (case lit of
        None \<Rightarrow> (''any'', g)
      | Some l \<Rightarrow>
          (let counter = literalCounter g + 1;
               name = ''Literal'' @ FormatInt counter
           in (name, g\<lparr>namedLiterals := mapStore name l (namedLiterals g),
                       literalCounter := counter\<rparr>)))"

text \<open>The loop of \<^verbatim>\<open>resolveUnion\<close> that copies the items other than the base type \<^verbatim>\<open>null\<close>.\<close>

fun nonNullItems :: "Type list \<Rightarrow> Type list \<Rightarrow> Type list" where
  "nonNullItems [] nonNull = nonNull"
| "nonNullItems (item # items) nonNull =
     (if t_Kind item = ''base'' \<and> t_Name item = ''null'' then nonNullItems items nonNull
      else nonNullItems items (nonNull @ [item]))"

text \<open>
  \<^verbatim>\<open>resolveGoType\<close> takes a pointer, nil included. Go evaluates the two calls of the
  \<^verbatim>\<open>map\<close> case from left to right, the key first.
\<close>

function resolveGoType :: "Type option \<Rightarrow> Generator \<Rightarrow> string \<times> Generator"
  and resolveUnion :: "Type list \<Rightarrow> Generator \<Rightarrow> string \<times> Generator" where
  "resolveGoType None g = (''any'', g)"
| "resolveGoType (Some (Type kind name element key mapValue items literal)) g =
     (if kind = ''base'' then (resolveBaseType name, g)
      else if kind = ''reference'' then (name, g)
      else if kind = ''array'' then
        (case resolveGoType element g of (e, g1) \<Rightarrow> (''[]'' @ e, g1))
      else if kind = ''map'' then
        (case resolveGoType key g of (k, g1) \<Rightarrow>
          (case resolveGoType mapValue g1 of (v, g2) \<Rightarrow> (''map['' @ k @ '']'' @ v, g2)))
      else if kind = ''or'' then resolveUnion items g
      else if kind = ''and'' then (''any'', g)
      else if kind = ''tuple'' then (''any'', g)
      else if kind = ''literal'' then promoteLiteral literal g
      else if kind = ''stringLiteral'' then (''string'', g)
      else if kind = ''integerLiteral'' then (''int32'', g)
      else if kind = ''booleanLiteral'' then (''bool'', g)
      else (''any'', g))"
| "resolveUnion items g =
     (case nonNullItems items [] of
        [item] \<Rightarrow>
          (case resolveGoType (Some item) g of (resolved, g1) \<Rightarrow>
             (if length (nonNullItems items []) < length items \<and> needsPointerForNull resolved
              then (''*'' @ resolved, g1) else (resolved, g1)))
      | _ \<Rightarrow> (''any'', g))"
  by pat_completeness auto
termination
proof (relation "measure (\<lambda>x. case x of
    Inl (t, g) \<Rightarrow> (case t of None \<Rightarrow> 0 | Some ty \<Rightarrow> Suc (size ty))
  | Inr (items, g) \<Rightarrow> Suc (size_list size items))")
  have sub: "set (nonNullItems items acc) \<subseteq> set items \<union> set acc" for items acc
    by (induction items acc rule: nonNullItems.induct) auto
  have est: "size item < size_list size items" if "item \<in> set items"
    for item :: Type and items
    using that by (induction items) auto
  show "wf (measure (\<lambda>x. case x of
      Inl (t, g) \<Rightarrow> (case t of None \<Rightarrow> 0 | Some ty \<Rightarrow> Suc (size ty))
    | Inr (items, g) \<Rightarrow> Suc (size_list size items)))" by simp
  fix items :: "Type list" and g :: Generator and item :: Type and rest :: "Type list"
  assume "nonNullItems items [] = item # rest"
  then have "item \<in> set (nonNullItems items [])" by simp
  with sub [of items "[]"] have "item \<in> set items" by auto
  from est [OF this]
  show "(Inl (Some item, g), Inr (items, g)) \<in> measure (\<lambda>x. case x of
      Inl (t, g) \<Rightarrow> (case t of None \<Rightarrow> 0 | Some ty \<Rightarrow> Suc (size ty))
    | Inr (items, g) \<Rightarrow> Suc (size_list size items))" by simp
qed (auto split: option.splits)

text \<open>\<^verbatim>\<open>resolveMethodType\<close> (output.go): a named structure is passed by pointer.\<close>

definition resolveMethodType :: "Type option \<Rightarrow> Generator \<Rightarrow> string \<times> Generator" where
  "resolveMethodType t g =
     (case t of
        None \<Rightarrow> ([], g)
      | Some ty \<Rightarrow>
          (case resolveGoType (Some ty) g of (resolved, g1) \<Rightarrow>
             (if resolved = ''any'' then (''any'', g1)
              else (case structs g1 resolved of
                      Some base \<Rightarrow> (''*'' @ resolved, g1)
                    | None \<Rightarrow> (resolved, g1)))))"

definition optionalType :: "string \<Rightarrow> bool \<Rightarrow> string" where
  "optionalType goType optional =
     (if \<not> optional then goType
      else if needsPointerForNull goType then ''*'' @ goType else goType)"

definition resolveEnumBaseType :: "EnumBaseType \<Rightarrow> string" where
  "resolveEnumBaseType t =
     (if b_Name t = ''string'' then ''string''
      else if b_Name t = ''integer'' then ''int32''
      else if b_Name t = ''uinteger'' then ''uint32''
      else ''string'')"

text \<open>
  \<^verbatim>\<open>formatNumericValue\<close>. The default branch is \<^verbatim>\<open>fmt.Sprintf("%v", val)\<close>, for the
  values the JSON decoder produces.
\<close>

definition SprintV :: "any \<Rightarrow> string" where
  "SprintV v =
     (case v of
        AString s \<Rightarrow> s
      | ABool b \<Rightarrow> (if b then ''true'' else ''false'')
      | ANil \<Rightarrow> ''<nil>''
      | AInt64 i \<Rightarrow> FormatInt i
      | AInt i \<Rightarrow> FormatInt i
      | AFloat64 f \<Rightarrow> [])"

definition formatNumericValue :: "Runtime \<Rightarrow> any \<Rightarrow> string" where
  "formatNumericValue rt v =
     (case v of
        AFloat64 val \<Rightarrow> FormatInt (int64_of_float64 rt val)
      | AInt64 val \<Rightarrow> FormatInt val
      | AInt val \<Rightarrow> FormatInt val
      | _ \<Rightarrow> SprintV v)"

subsection \<open>Unions as the specification words them\<close>

text \<open>
  \<open>isNull\<close> is the item the specification filters; \<open>nilRepresentable\<close> is the set of
  type strings that already have a nil value: a slice, a map, \<^verbatim>\<open>any\<close>, and a pointer.
\<close>

definition isNull :: "Type \<Rightarrow> bool" where
  "isNull t = (t_Kind t = ''base'' \<and> t_Name t = ''null'')"

definition nilRepresentable :: "string \<Rightarrow> bool" where
  "nilRepresentable goType =
     (take 2 goType = ''[]'' \<or> take 4 goType = ''map['' \<or> goType = ''any'' \<or>
      take 1 goType = ''*'')"

subsection \<open>Reading a decimal numeral\<close>

text \<open>
  What a formatted integer denotes: the value of a string of decimal digits with an
  optional minus sign, as a reader of the generated file takes it.
\<close>

definition digitValue :: "char \<Rightarrow> int" where
  "digitValue c = int (of_char c) - 48"

definition decimalValue :: "string \<Rightarrow> int" where
  "decimalValue s =
     (case s of
        [] \<Rightarrow> 0
      | c # cs \<Rightarrow>
          if c = CHR ''-'' then - foldl (\<lambda>n d. 10 * n + digitValue d) 0 cs
          else foldl (\<lambda>n d. 10 * n + digitValue d) 0 s)"

section \<open>Method planning (internal/generate/output.go)\<close>

text \<open>
  The struct \<^verbatim>\<open>methodInfo\<close>. Its field \<^verbatim>\<open>method\<close>, the LSP method string, is
  \<open>lspMethod\<close> here, \<open>method\<close> being a word of Isabelle.
\<close>

record methodInfo =
  lspMethod :: string
  goName :: string
  signature :: string
  doc :: string
  isRequest :: bool
  paramsType :: string
  resultType :: string

text \<open>The Go map literal \<^verbatim>\<open>methodNameOverrides\<close>; its keys are pairwise different.\<close>

definition methodNameOverrides :: "(string \<times> string) list" where
  "methodNameOverrides =
     [(''textDocument/didOpen'', ''DidOpen''),
      (''textDocument/didClose'', ''DidClose''),
      (''textDocument/didChange'', ''DidChange''),
      (''textDocument/didSave'', ''DidSave''),
      (''completionItem/resolve'', ''CompletionResolve''),
      (''codeLens/resolve'', ''CodeLensResolve''),
      (''documentLink/resolve'', ''DocumentLinkResolve''),
      (''codeAction/resolve'', ''CodeActionResolve''),
      (''inlayHint/resolve'', ''InlayHintResolve''),
      (''workspaceSymbol/resolve'', ''WorkspaceSymbolResolve''),
      (''textDocument/diagnostic'', ''Diagnostic''),
      (''textDocument/foldingRange'', ''FoldingRanges''),
      (''workspace/symbol'', ''Symbols''),
      (''textDocument/semanticTokens/full'', ''SemanticTokensFull''),
      (''textDocument/semanticTokens/full/delta'', ''SemanticTokensFullDelta''),
      (''textDocument/semanticTokens/range'', ''SemanticTokensRange''),
      (''window/workDoneProgress/cancel'', ''WorkDoneProgressCancel'')]"

text \<open>
  The assignment that both loops of \<^verbatim>\<open>disambiguateMethods\<close> make to an entry: the first
  occurrence of the old name and an opening parenthesis in the signature is replaced, and
  the name is set.
\<close>

definition rename :: "methodInfo \<Rightarrow> string \<Rightarrow> methodInfo" where
  "rename m newName =
     m\<lparr>signature := Replace1 (signature m) (goName m @ ''('') (newName @ ''(''),
       goName := newName\<rparr>"

text \<open>
  The three loops of \<^verbatim>\<open>disambiguateMethods\<close>. The first and the third run over the
  indices of the slice; \<^verbatim>\<open>pinned\<close> is the set of the indices marked. \<^verbatim>\<open>counts\<close> is a Go
  map read with the default 0, a function here.
\<close>

fun overridePass :: "nat \<Rightarrow> methodInfo list \<Rightarrow> nat set \<Rightarrow> methodInfo list \<times> nat set" where
  "overridePass idx [] pinned = ([], pinned)"
| "overridePass idx (m # ms) pinned =
     (case map_of methodNameOverrides (lspMethod m) of
        Some override \<Rightarrow>
          (case overridePass (Suc idx) ms (insert idx pinned) of
             (ms1, pinned1) \<Rightarrow> (rename m override # ms1, pinned1))
      | None \<Rightarrow>
          (case overridePass (Suc idx) ms pinned of
             (ms1, pinned1) \<Rightarrow> (m # ms1, pinned1)))"

fun countPass :: "methodInfo list \<Rightarrow> (string \<Rightarrow> int) \<Rightarrow> (string \<Rightarrow> int)" where
  "countPass [] counts = counts"
| "countPass (m # ms) counts = countPass ms (counts(goName m := counts (goName m) + 1))"

fun renamePass :: "nat \<Rightarrow> methodInfo list \<Rightarrow> nat set \<Rightarrow> (string \<Rightarrow> int) \<Rightarrow> methodInfo list" where
  "renamePass idx [] pinned counts = []"
| "renamePass idx (m # ms) pinned counts =
     (if idx \<in> pinned then m # renamePass (Suc idx) ms pinned counts
      else if 1 < counts (goName m) then
        rename m (GoMethodNameFull (lspMethod m)) # renamePass (Suc idx) ms pinned counts
      else m # renamePass (Suc idx) ms pinned counts)"

definition disambiguateMethods :: "methodInfo list \<Rightarrow> methodInfo list" where
  "disambiguateMethods methods =
     (case overridePass 0 methods {} of
        (methods1, pinned) \<Rightarrow> renamePass 0 methods1 pinned (countPass methods1 (\<lambda>name. 0)))"

definition requestSignature :: "string \<Rightarrow> string \<Rightarrow> string \<Rightarrow> string" where
  "requestSignature name params result =
     (if params \<noteq> [] \<and> result \<noteq> [] then
        name @ ''(ctx context.Context, params '' @ params @ '') ('' @ result @ '', error)''
      else if params \<noteq> [] then name @ ''(ctx context.Context, params '' @ params @ '') error''
      else if result \<noteq> [] then name @ ''(ctx context.Context) ('' @ result @ '', error)''
      else name @ ''(ctx context.Context) error'')"

definition buildRequestMethod :: "Request \<Rightarrow> Generator \<Rightarrow> methodInfo \<times> Generator" where
  "buildRequestMethod req g =
     (case resolveMethodType (r_Params req) g of (params, g1) \<Rightarrow>
       (case resolveMethodType (r_Result req) g1 of (result, g2) \<Rightarrow>
         (\<lparr>lspMethod = r_Method req, goName = GoMethodName (r_Method req),
           signature = requestSignature (GoMethodName (r_Method req)) params result,
           doc = r_Documentation req, isRequest = True,
           paramsType = params, resultType = result\<rparr>, g2)))"

definition buildNotificationMethod :: "Notification \<Rightarrow> Generator \<Rightarrow> methodInfo \<times> Generator" where
  "buildNotificationMethod notif g =
     (case resolveMethodType (n_Params notif) g of (params, g1) \<Rightarrow>
        (\<lparr>lspMethod = n_Method notif, goName = GoMethodName (n_Method notif),
          signature =
            (if params \<noteq> [] then
               GoMethodName (n_Method notif) @ ''(ctx context.Context, params '' @ params @
                 '') error''
             else GoMethodName (n_Method notif) @ ''(ctx context.Context) error''),
          doc = n_Documentation notif, isRequest = False,
          paramsType = params, resultType = []\<rparr>, g1))"

text \<open>
  The two loops of \<^verbatim>\<open>collectServerMethods\<close> and of \<^verbatim>\<open>collectClientMethods\<close>; the two
  functions differ in the test of the direction only.
\<close>

fun requestMethods ::
  "(string \<Rightarrow> bool) \<Rightarrow> Request list \<Rightarrow> methodInfo list \<Rightarrow> Generator \<Rightarrow>
     methodInfo list \<times> Generator" where
  "requestMethods wanted [] methods g = (methods, g)"
| "requestMethods wanted (r # rs) methods g =
     (if r_Proposed r \<or> \<not> wanted (r_MessageDirection r) then requestMethods wanted rs methods g
      else (case buildRequestMethod r g of
              (m, g1) \<Rightarrow> requestMethods wanted rs (methods @ [m]) g1))"

fun notificationMethods ::
  "(string \<Rightarrow> bool) \<Rightarrow> Notification list \<Rightarrow> methodInfo list \<Rightarrow> Generator \<Rightarrow>
     methodInfo list \<times> Generator" where
  "notificationMethods wanted [] methods g = (methods, g)"
| "notificationMethods wanted (n # ns) methods g =
     (if n_Proposed n \<or> \<not> wanted (n_MessageDirection n) then
        notificationMethods wanted ns methods g
      else (case buildNotificationMethod n g of
              (m, g1) \<Rightarrow> notificationMethods wanted ns (methods @ [m]) g1))"

text \<open>
  \<^verbatim>\<open>slices.SortFunc\<close> with \<^verbatim>\<open>cmp.Compare(a.method, b.method)\<close> orders by the bytes of the
  method string. Go does not promise a stable sort; the model sorts stably, which is the
  same whenever no two records share a method string.
\<close>

definition collectServerMethods :: "Generator \<Rightarrow> methodInfo list \<times> Generator" where
  "collectServerMethods g =
     (case requestMethods IsServerMethod (m_Requests (Model g)) [] g of (methods1, g1) \<Rightarrow>
       (case notificationMethods IsServerMethod (m_Notifications (Model g1)) methods1 g1 of
          (methods2, g2) \<Rightarrow> (sort_key lspMethod (disambiguateMethods methods2), g2)))"

definition collectClientMethods :: "Generator \<Rightarrow> methodInfo list \<times> Generator" where
  "collectClientMethods g =
     (case requestMethods IsClientMethod (m_Requests (Model g)) [] g of (methods1, g1) \<Rightarrow>
       (case notificationMethods IsClientMethod (m_Notifications (Model g1)) methods1 g1 of
          (methods2, g2) \<Rightarrow> (sort_key lspMethod (disambiguateMethods methods2), g2)))"

subsection \<open>Name disambiguation as the specification words it\<close>

text \<open>
  \<open>pinnedName\<close> is the entry of the override map for a method. The specification counts
  the short names "across the remaining un-pinned set" (\<open>unpinnedCount\<close>), and
  \<open>disambiguateAsClaimed\<close> is the procedure with that count. \<open>nameCount\<close> counts, across
  all methods, the name a method has after the override pass: the pinned name of a pinned
  method, the short name of any other.
\<close>

definition pinnedName :: "methodInfo \<Rightarrow> string option" where
  "pinnedName m = map_of methodNameOverrides (lspMethod m)"

definition unpinnedCount :: "methodInfo list \<Rightarrow> string \<Rightarrow> nat" where
  "unpinnedCount methods name =
     length (filter (\<lambda>m. pinnedName m = None \<and> goName m = name) methods)"

definition disambiguateAsClaimed :: "methodInfo list \<Rightarrow> methodInfo list" where
  "disambiguateAsClaimed methods =
     map (\<lambda>m. case pinnedName m of
                 Some override \<Rightarrow> rename m override
               | None \<Rightarrow>
                   if 1 < unpinnedCount methods (goName m)
                   then rename m (GoMethodNameFull (lspMethod m)) else m) methods"

definition nameAfterOverrides :: "methodInfo \<Rightarrow> string" where
  "nameAfterOverrides m = (case pinnedName m of Some override \<Rightarrow> override | None \<Rightarrow> goName m)"

definition nameCount :: "methodInfo list \<Rightarrow> string \<Rightarrow> nat" where
  "nameCount methods name = length (filter (\<lambda>m. nameAfterOverrides m = name) methods)"

text \<open>The first loop of \<^verbatim>\<open>disambiguateMethods\<close>, on one record.\<close>

definition overridden :: "methodInfo \<Rightarrow> methodInfo" where
  "overridden m = (case pinnedName m of Some override \<Rightarrow> rename m override | None \<Rightarrow> m)"

section \<open>Emission (internal/generate/output.go)\<close>

text \<open>
  Every \<^verbatim>\<open>write\<close> function appends to a \<^verbatim>\<open>bytes.Buffer\<close>; the model returns the text
  appended. A function that resolves types also returns the generator, whose counter and
  literal map the resolver changes.
\<close>

abbreviation NL :: string where "NL \<equiv> [CHR 0x0A]"
abbreviation TAB :: string where "TAB \<equiv> [CHR 0x09]"

definition writeHeader :: "Runtime \<Rightarrow> Generator \<Rightarrow> string \<Rightarrow> string list \<Rightarrow> string" where
  "writeHeader rt g pkg imps =
     ''// Copyright '' @ FormatInt (Year rt) @ '' Bohdan Shtepan.'' @ NL @
     ''// Licensed under the MIT License.'' @ NL @ NL @
     ''// Code generated by go-lsp/cmd/generate; DO NOT EDIT.'' @ NL @
     ''// LSP version: '' @ md_Version (m_MetaData (Model g)) @ NL @ NL @
     ''package '' @ pkg @ NL @ NL @
     (if imps \<noteq> [] then
        ''import ('' @ NL @ concat (map (\<lambda>imp. TAB @ Quote rt imp @ NL) imps) @ '')'' @ NL @ NL
      else [])"

text \<open>
  The loop \<^verbatim>\<open>for line := range strings.SplitSeq(strings.TrimSpace(doc), "\n")\<close> of the three
  documentation writers, which differ in the prefix of a line.
\<close>

definition commentLines :: "Runtime \<Rightarrow> string \<Rightarrow> string \<Rightarrow> string" where
  "commentLines rt pre docText =
     concat (map (\<lambda>line. pre @ TrimSpace rt line @ NL) (Split (TrimSpace rt docText) (CHR 0x0A)))"

definition writeDoc :: "Runtime \<Rightarrow> string \<Rightarrow> string \<Rightarrow> string" where
  "writeDoc rt docText name =
     (if docText \<noteq> [] then commentLines rt ''// '' docText
      else ''// '' @ name @ '' is an LSP type.'' @ NL)"

definition writeFieldDoc :: "Runtime \<Rightarrow> string \<Rightarrow> string" where
  "writeFieldDoc rt docText =
     (if docText = [] then [] else commentLines rt (TAB @ ''// '') docText)"

definition writeMethodDoc :: "Runtime \<Rightarrow> string \<Rightarrow> string \<Rightarrow> string \<Rightarrow> string" where
  "writeMethodDoc rt docText name meth =
     (if docText \<noteq> [] then commentLines rt (TAB @ ''// '') docText
      else TAB @ ''// '' @ name @ '' handles the '' @ Quote rt meth @ '' method.'' @ NL)"

subsection \<open>The types file\<close>

text \<open>
  The loop over the properties of a structure or of a promoted literal, the same in both
  places of \<^verbatim>\<open>generateTypes\<close>.
\<close>

fun writeFields :: "Runtime \<Rightarrow> Property list \<Rightarrow> Generator \<Rightarrow> string \<times> Generator" where
  "writeFields rt [] g = ([], g)"
| "writeFields rt (prop # props) g =
     (if p_Proposed prop then writeFields rt props g
      else
        (case resolveGoType (Some (p_Type prop)) g of (resolved, g1) \<Rightarrow>
          (case writeFields rt props g1 of (rest, g2) \<Rightarrow>
            (writeFieldDoc rt (p_Documentation prop) @
             TAB @ GoFieldName (p_Name prop) @ '' '' @
             optionalType resolved (p_Optional prop) @ '' '' @
             JSONTag (p_Name prop) (p_Optional prop) @ NL @ rest, g2))))"

text \<open>
  The loop over \<^verbatim>\<open>g.Model.Structures\<close>. \<^const>\<open>None\<close> is a property query that ran out of
  fuel.
\<close>

fun writeStructures ::
  "Runtime \<Rightarrow> Structure list \<Rightarrow> Generator \<Rightarrow> (string \<times> Generator) option" where
  "writeStructures rt [] g = Some ([], g)"
| "writeStructures rt (strc # strcs) g =
     (if s_Proposed strc then writeStructures rt strcs g
      else
        (case collectProperties g strc of
           None \<Rightarrow> None
         | Some props \<Rightarrow>
             (case writeFields rt props g of (fieldLines, g1) \<Rightarrow>
               (case writeStructures rt strcs g1 of
                  None \<Rightarrow> None
                | Some (rest, g2) \<Rightarrow>
                    Some (writeDoc rt (s_Documentation strc) (s_Name strc) @
                          ''type '' @ s_Name strc @ '' struct {'' @ NL @ fieldLines @
                          ''}'' @ NL @ NL @ rest, g2)))))"

fun writeEnumValues :: "Runtime \<Rightarrow> Enumeration \<Rightarrow> EnumerationValue list \<Rightarrow> string" where
  "writeEnumValues rt enum [] = []"
| "writeEnumValues rt enum (val # vals) =
     (if v_Proposed val then writeEnumValues rt enum vals
      else
        writeFieldDoc rt (v_Documentation val) @
        (if resolveEnumBaseType (e_Type enum) = ''string'' then
           TAB @ GoEnumValueName (e_Name enum) (v_Name val) @ '' '' @ e_Name enum @ '' = '' @
           SprintQ rt (v_Value val) @ NL
         else
           TAB @ GoEnumValueName (e_Name enum) (v_Name val) @ '' '' @ e_Name enum @ '' = '' @
           formatNumericValue rt (v_Value val) @ NL) @
        writeEnumValues rt enum vals)"

fun writeEnumerations :: "Runtime \<Rightarrow> Enumeration list \<Rightarrow> string" where
  "writeEnumerations rt [] = []"
| "writeEnumerations rt (enum # enums) =
     (if e_Proposed enum then writeEnumerations rt enums
      else
        writeDoc rt (e_Documentation enum) (e_Name enum) @
        ''type '' @ e_Name enum @ '' '' @ resolveEnumBaseType (e_Type enum) @ NL @ NL @
        ''const ('' @ NL @ writeEnumValues rt enum (e_Values enum) @ '')'' @ NL @ NL @
        writeEnumerations rt enums)"

fun writeAliases :: "Runtime \<Rightarrow> TypeAlias list \<Rightarrow> Generator \<Rightarrow> string \<times> Generator" where
  "writeAliases rt [] g = ([], g)"
| "writeAliases rt (alias # aliases) g =
     (if a_Proposed alias then writeAliases rt aliases g
      else
        (case resolveGoType (Some (a_Type alias)) g of (goType, g1) \<Rightarrow>
          (case writeAliases rt aliases g1 of (rest, g2) \<Rightarrow>
            (writeDoc rt (a_Documentation alias) (a_Name alias) @
             ''type '' @ a_Name alias @ '' = '' @ goType @ NL @ NL @ rest, g2))))"

text \<open>
  The loop over the sorted names of the promoted literals. \<^verbatim>\<open>names\<close> is computed once,
  before the loop, from the keys the map has then; \<^verbatim>\<open>g.namedLiterals[name]\<close> reads the
  map as it is in the iteration. A name without entry would make \<^verbatim>\<open>lit\<close> nil and
  \<^verbatim>\<open>lit.Properties\<close> panic: \<^const>\<open>None\<close>.
\<close>

fun writeLiterals :: "Runtime \<Rightarrow> string list \<Rightarrow> Generator \<Rightarrow> (string \<times> Generator) option" where
  "writeLiterals rt [] g = Some ([], g)"
| "writeLiterals rt (name # names) g =
     (case map_of (namedLiterals g) name of
        None \<Rightarrow> None
      | Some lit \<Rightarrow>
          (case writeFields rt (l_Properties lit) g of (fieldLines, g1) \<Rightarrow>
            (case writeLiterals rt names g1 of
               None \<Rightarrow> None
             | Some (rest, g2) \<Rightarrow>
                 Some (''type '' @ name @ '' struct {'' @ NL @ fieldLines @ ''}'' @ NL @ NL @ rest,
                       g2))))"

text \<open>
  \<^verbatim>\<open>for name := range g.namedLiterals { names = append(names, name) }; slices.Sort(names)\<close>:
  the keys in the order the runtime yields them, then sorted by their bytes.
\<close>

definition literalNames :: "Runtime \<Rightarrow> Generator \<Rightarrow> string list" where
  "literalNames rt g = sort (rangeOrder rt (map fst (namedLiterals g)))"

definition generateTypes :: "Runtime \<Rightarrow> Generator \<Rightarrow> (string \<times> Generator) option" where
  "generateTypes rt g =
     (case writeStructures rt (m_Structures (Model g)) g of
        None \<Rightarrow> None
      | Some (structures, g1) \<Rightarrow>
          (case writeAliases rt (m_TypeAliases (Model g1)) g1 of (aliases, g2) \<Rightarrow>
            (case (if namedLiterals g2 \<noteq> [] then writeLiterals rt (literalNames rt g2) g2
                   else Some ([], g2)) of
               None \<Rightarrow> None
             | Some (literals, g3) \<Rightarrow>
                 Some (writeHeader rt g ''protocol'' [''encoding/json''] @
                       structures @ writeEnumerations rt (m_Enumerations (Model g1)) @
                       aliases @ literals @
                       ''// Ensure json import is used.'' @ NL @
                       ''var _ = json.RawMessage{}'' @ NL, g3))))"

subsection \<open>The server file\<close>

text \<open>
  The two loops of \<^verbatim>\<open>generateServer\<close> that write the method-name constants; \<^verbatim>\<open>emitted\<close>
  is the set of the constant names written so far and is shared by both loops.
\<close>

fun writeMethodConsts :: "Runtime \<Rightarrow> methodInfo list \<Rightarrow> string set \<Rightarrow> string \<times> string set" where
  "writeMethodConsts rt [] emitted = ([], emitted)"
| "writeMethodConsts rt (m # ms) emitted =
     (if methodConstName (lspMethod m) \<noteq> [] \<and> methodConstName (lspMethod m) \<notin> emitted then
        (case writeMethodConsts rt ms (insert (methodConstName (lspMethod m)) emitted) of
           (rest, emitted1) \<Rightarrow>
             (TAB @ methodConstName (lspMethod m) @ '' = '' @ Quote rt (lspMethod m) @ NL @ rest,
              emitted1))
      else writeMethodConsts rt ms emitted)"

definition writeInterfaceMethod :: "Runtime \<Rightarrow> methodInfo \<Rightarrow> string" where
  "writeInterfaceMethod rt m =
     writeMethodDoc rt (doc m) (goName m) (lspMethod m) @ TAB @ signature m @ NL"

definition writeParamsDecode :: "methodInfo \<Rightarrow> string" where
  "writeParamsDecode info =
     TAB @ TAB @ ''var params '' @ TrimPrefix (paramsType info) ''*'' @ NL @
     TAB @ TAB @ ''if err := json.Unmarshal(req.Params(), &params); err != nil {'' @ NL @
     TAB @ TAB @ TAB @ ''return replyParseError(ctx, reply, err)'' @ NL @
     TAB @ TAB @ ''}'' @ NL"

definition writeRequestDispatch :: "methodInfo \<Rightarrow> string" where
  "writeRequestDispatch info =
     (if paramsType info \<noteq> [] then writeParamsDecode info else []) @
     (if paramsType info \<noteq> [] \<and> resultType info \<noteq> [] then
        TAB @ TAB @ ''result, err := server.'' @ goName info @ ''(ctx, &params)'' @ NL @
        TAB @ TAB @ ''return reply(ctx, result, err)'' @ NL
      else if paramsType info \<noteq> [] then
        TAB @ TAB @ ''err := server.'' @ goName info @ ''(ctx, &params)'' @ NL @
        TAB @ TAB @ ''return reply(ctx, nil, err)'' @ NL
      else if resultType info \<noteq> [] then
        TAB @ TAB @ ''result, err := server.'' @ goName info @ ''(ctx)'' @ NL @
        TAB @ TAB @ ''return reply(ctx, result, err)'' @ NL
      else
        TAB @ TAB @ ''err := server.'' @ goName info @ ''(ctx)'' @ NL @
        TAB @ TAB @ ''return reply(ctx, nil, err)'' @ NL)"

definition writeNotificationDispatch :: "methodInfo \<Rightarrow> string" where
  "writeNotificationDispatch info =
     (if paramsType info \<noteq> [] then
        writeParamsDecode info @
        TAB @ TAB @ ''return server.'' @ goName info @ ''(ctx, &params)'' @ NL
      else TAB @ TAB @ ''return server.'' @ goName info @ ''(ctx)'' @ NL)"

definition writeDispatchCase :: "Runtime \<Rightarrow> methodInfo \<Rightarrow> string" where
  "writeDispatchCase rt meth =
     TAB @ ''case '' @ Quote rt (lspMethod meth) @ '':'' @ NL @
     (if isRequest meth then writeRequestDispatch meth else writeNotificationDispatch meth)"

definition generateServer :: "Runtime \<Rightarrow> Generator \<Rightarrow> string \<times> Generator" where
  "generateServer rt g =
     (case collectServerMethods g of (serverMethods, g1) \<Rightarrow>
       (case collectClientMethods g1 of (clientMethods, g2) \<Rightarrow>
         (case writeMethodConsts rt serverMethods {} of (serverConsts, emitted1) \<Rightarrow>
           (case writeMethodConsts rt clientMethods emitted1 of (clientConsts, emitted2) \<Rightarrow>
             (writeHeader rt g ''protocol''
                [''context'', ''encoding/json'', ''go.lsp.dev/jsonrpc2''] @
              ''// LSP method name constants.'' @ NL @
              ''const ('' @ NL @ serverConsts @ clientConsts @ '')'' @ NL @ NL @
              ''// Server defines the interface for an LSP server.'' @ NL @
              ''// All methods correspond to LSP requests and notifications'' @ NL @
              ''// directed from client to server.'' @ NL @
              ''type Server interface {'' @ NL @
              concat (map (writeInterfaceMethod rt) serverMethods) @
              NL @
              TAB @ ''// Request is a catch-all handler for any LSP method not covered by the'' @ NL @
              TAB @ ''// interface above.  The method string is the raw LSP method name and'' @ NL @
              TAB @ ''// params is the already-decoded parameter value.'' @ NL @
              TAB @ ''Request(ctx context.Context, method string, params any) (any, error)'' @ NL @
              ''}'' @ NL @ NL @
              ''// serverDispatch dispatches a JSON-RPC request to the appropriate Server method.'' @ NL @
              ''func serverDispatch(ctx context.Context, server Server, reply jsonrpc2.Replier, req jsonrpc2.Request) error {'' @ NL @
              TAB @ ''switch req.Method() {'' @ NL @
              concat (map (writeDispatchCase rt) serverMethods) @
              TAB @ ''default:'' @ NL @
              TAB @ TAB @ ''var params any'' @ NL @
              TAB @ TAB @ ''if req.Params() != nil {'' @ NL @
              TAB @ TAB @ TAB @ ''if err := json.Unmarshal(req.Params(), &params); err != nil {'' @ NL @
              TAB @ TAB @ TAB @ TAB @ ''return replyParseError(ctx, reply, err)'' @ NL @
              TAB @ TAB @ TAB @ ''}'' @ NL @
              TAB @ TAB @ ''}'' @ NL @
              TAB @ TAB @ ''resp, err := server.Request(ctx, req.Method(), params)'' @ NL @
              TAB @ TAB @ ''return reply(ctx, resp, err)'' @ NL @
              TAB @ ''}'' @ NL @
              ''}'' @ NL, g2)))))"

subsection \<open>The client file\<close>

definition writeClientMethod :: "Runtime \<Rightarrow> methodInfo \<Rightarrow> string" where
  "writeClientMethod rt info =
     ''func (c *clientDispatcher) '' @ signature info @ '' {'' @ NL @
     (if isRequest info then
        (if resultType info \<noteq> [] then
           TAB @ ''var result '' @ TrimPrefix (resultType info) ''*'' @ NL @
           (if paramsType info \<noteq> [] then
              TAB @ ''_, err := c.conn.Call(ctx, '' @ Quote rt (lspMethod info) @
                '', params, &result)'' @ NL
            else
              TAB @ ''_, err := c.conn.Call(ctx, '' @ Quote rt (lspMethod info) @
                '', nil, &result)'' @ NL) @
           TAB @ ''if err != nil {'' @ NL @
           (if HasPrefix (resultType info) ''*'' then TAB @ TAB @ ''return nil, err'' @ NL
            else
              TAB @ TAB @ ''var zero '' @ TrimPrefix (resultType info) ''*'' @ NL @
              TAB @ TAB @ ''return zero, err'' @ NL) @
           TAB @ ''}'' @ NL @
           (if HasPrefix (resultType info) ''*'' then TAB @ ''return &result, nil'' @ NL
            else TAB @ ''return result, nil'' @ NL)
         else
           (if paramsType info \<noteq> [] then
              TAB @ ''_, err := c.conn.Call(ctx, '' @ Quote rt (lspMethod info) @
                '', params, nil)'' @ NL
            else
              TAB @ ''_, err := c.conn.Call(ctx, '' @ Quote rt (lspMethod info) @
                '', nil, nil)'' @ NL) @
           TAB @ ''return err'' @ NL)
      else
        (if paramsType info \<noteq> [] then
           TAB @ ''return c.conn.Notify(ctx, '' @ Quote rt (lspMethod info) @ '', params)'' @ NL
         else TAB @ ''return c.conn.Notify(ctx, '' @ Quote rt (lspMethod info) @ '', nil)'' @ NL)) @
     ''}'' @ NL @ NL"

definition generateClient :: "Runtime \<Rightarrow> Generator \<Rightarrow> string \<times> Generator" where
  "generateClient rt g =
     (case collectClientMethods g of (clientMethods, g1) \<Rightarrow>
        (writeHeader rt g ''protocol'' [''context'', ''go.lsp.dev/jsonrpc2''] @
         ''// Client defines the interface for an LSP client.'' @ NL @
         ''// All methods correspond to LSP requests and notifications'' @ NL @
         ''// directed from server to client.'' @ NL @
         ''type Client interface {'' @ NL @
         concat (map (writeInterfaceMethod rt) clientMethods) @
         ''}'' @ NL @ NL @
         ''type clientDispatcher struct {'' @ NL @
         TAB @ ''conn jsonrpc2.Conn'' @ NL @
         TAB @ ''logger Logger'' @ NL @
         ''}'' @ NL @ NL @
         ''// ClientDispatcher returns a Client that dispatches LSP requests/notifications'' @ NL @
         ''// across the given jsonrpc2 connection.'' @ NL @
         ''//'' @ NL @
         ''// The logger parameter is used for protocol-level logging. Pass NopLogger()'' @ NL @
         ''// (or nil) to disable logging.'' @ NL @
         ''func ClientDispatcher(conn jsonrpc2.Conn, logger Logger) Client {'' @ NL @
         TAB @ ''if logger == nil {'' @ NL @
         TAB @ TAB @ ''logger = NopLogger()'' @ NL @
         TAB @ ''}'' @ NL @
         TAB @ ''return &clientDispatcher{conn: conn, logger: logger}'' @ NL @
         ''}'' @ NL @ NL @
         concat (map (writeClientMethod rt) clientMethods), g1))"

subsection \<open>Generate\<close>

record GeneratedOutput =
  Types :: string
  Server :: string
  Client :: string

text \<open>
  \<^verbatim>\<open>Generate\<close> writes the three files in the order types, server, client, on the one
  generator. Go's \<^verbatim>\<open>error\<close> results are always nil in the three functions; \<^const>\<open>None\<close> is a
  run that does not return or panics.
\<close>

definition Generate :: "Runtime \<Rightarrow> Generator \<Rightarrow> (GeneratedOutput \<times> Generator) option" where
  "Generate rt g =
     (case generateTypes rt g of
        None \<Rightarrow> None
      | Some (types, g1) \<Rightarrow>
          (case generateServer rt g1 of (server, g2) \<Rightarrow>
            (case generateClient rt g2 of (client, g3) \<Rightarrow>
               Some (\<lparr>Types = types, Server = server, Client = client\<rparr>, g3))))"

section \<open>Example models\<close>

text \<open>
  Two structures that extend each other; \<open>A\<close> also mixes in a base type and a name that
  is not in the index.
\<close>

definition ex_string :: Type where
  "ex_string = Type ''base'' ''string'' None None None [] None"

definition ex_ref :: "string \<Rightarrow> Type" where
  "ex_ref name = Type ''reference'' name None None None [] None"

definition ex_prop :: "string \<Rightarrow> string \<Rightarrow> Property" where
  "ex_prop d name = Property d name False False ex_string"

definition ex_A :: Structure where
  "ex_A = \<lparr>s_Documentation = [], s_Extends = [ex_ref ''B''],
     s_Mixins = [ex_string, ex_ref ''Missing''], s_Name = ''A'',
     s_Properties = [ex_prop ''A'' ''x'', ex_prop ''A'' ''y''], s_Proposed = False\<rparr>"

definition ex_B :: Structure where
  "ex_B = \<lparr>s_Documentation = [], s_Extends = [ex_ref ''A''], s_Mixins = [], s_Name = ''B'',
     s_Properties = [ex_prop ''B'' ''y'', ex_prop ''B'' ''z''], s_Proposed = False\<rparr>"

definition ex_cyclic :: Model where
  "ex_cyclic = \<lparr>m_MetaData = \<lparr>md_Version = ''3.17.0''\<rparr>, m_Requests = [], m_Notifications = [],
     m_Structures = [ex_A, ex_B], m_Enumerations = [], m_TypeAliases = []\<rparr>"

lemmas ex_defs = ex_string_def ex_ref_def ex_prop_def ex_A_def ex_B_def ex_cyclic_def

text \<open>Types for the examples of type resolution.\<close>

definition ex_base :: "string \<Rightarrow> Type" where
  "ex_base name = Type ''base'' name None None None [] None"

definition ex_array :: "Type \<Rightarrow> Type" where
  "ex_array element = Type ''array'' [] (Some element) None None [] None"

definition ex_or :: "Type list \<Rightarrow> Type" where
  "ex_or items = Type ''or'' [] None None None items None"

definition ex_literal :: "Property list \<Rightarrow> Type" where
  "ex_literal props = Type ''literal'' [] None None None [] (Some (LiteralType props))"

lemmas ex_type_defs = ex_base_def ex_array_def ex_or_def ex_literal_def ex_ref_def

lemmas eval_strings = char_of_def bit_0 ToUpper_def IsUpper_def HasPrefix_def TrimPrefix_def
  FormatInt_def digits.simps

text \<open>
  A runtime for the examples: the year 2026, a map iteration that yields the keys in
  reverse, and a \<^verbatim>\<open>Quote\<close> that is right on strings of printable ASCII without quote or
  backslash.
\<close>

definition ex_rt :: Runtime where
  "ex_rt = \<lparr>Year = 2026, rangeOrder = rev, Quote = (\<lambda>s. [CHR 0x22] @ s @ [CHR 0x22]),
     badVerbQ = (\<lambda>v. []), TrimSpace = (\<lambda>s. s), convUnrepresentable = (\<lambda>f. 0)\<rparr>"

text \<open>An enumeration over \<^verbatim>\<open>integer\<close> whose one value is the \<^verbatim>\<open>float64\<close> nearest to 2.9.\<close>

definition ex_value :: EnumerationValue where
  "ex_value = \<lparr>v_Documentation = [], v_Name = ''two'', v_Proposed = False,
     v_Value = AFloat64 (Finite (6530219459687219 / 2251799813685248))\<rparr>"

definition ex_enum :: Enumeration where
  "ex_enum = \<lparr>e_Documentation = [], e_Name = ''Kind'', e_Proposed = False,
     e_Type = \<lparr>b_Name = ''integer''\<rparr>, e_Values = [ex_value]\<rparr>"

text \<open>
  Method records as \<^verbatim>\<open>buildNotificationMethod\<close> makes them for a notification without
  parameters, and two lists of methods whose short names collide.
\<close>

definition ex_method :: "string \<Rightarrow> methodInfo" where
  "ex_method m =
     \<lparr>lspMethod = m, goName = GoMethodName m,
      signature = GoMethodName m @ ''(ctx context.Context) error'', doc = [],
      isRequest = False, paramsType = [], resultType = []\<rparr>"

definition ex_didOpen :: "methodInfo list" where
  "ex_didOpen = [ex_method ''textDocument/didOpen'', ex_method ''notebookDocument/didOpen'']"

definition ex_diagnostic :: "methodInfo list" where
  "ex_diagnostic = [ex_method ''textDocument/diagnostic'', ex_method ''workspace/diagnostic'']"

lemmas eval_names = GoMethodName_def GoMethodNameFull_def LastIndex_def methodConstName_def
  methodNameOverrides_def pinnedName_def rename_def

section \<open>Property collection: results\<close>

lemma firstWins_append:
  "firstWins (xs @ ys) =
     firstWins xs @ firstWins (filter (\<lambda>q. p_Name q \<notin> p_Name ` set xs) ys)"
proof (induction xs arbitrary: ys rule: firstWins.induct)
  case 1
  then show ?case by simp
next
  case (2 p ps)
  have "filter (\<lambda>q. p_Name q \<notin> p_Name ` set (filter (\<lambda>q. p_Name q \<noteq> p_Name p) ps))
          (filter (\<lambda>q. p_Name q \<noteq> p_Name p) ys) =
        filter (\<lambda>q. p_Name q \<notin> p_Name ` set (p # ps)) ys"
    by (auto intro!: filter_cong)
  with 2 [of "filter (\<lambda>q. p_Name q \<noteq> p_Name p) ys"] show ?case by simp
qed

lemma appendUnseen_firstWins:
  "appendUnseen ps seen result =
     (seen \<union> p_Name ` set ps, result @ firstWins (filter (\<lambda>p. p_Name p \<notin> seen) ps))"
proof (induction ps arbitrary: seen result)
  case Nil
  then show ?case by simp
next
  case (Cons p ps)
  have "filter (\<lambda>q. p_Name q \<noteq> p_Name p) (filter (\<lambda>p. p_Name p \<notin> seen) ps) =
        filter (\<lambda>q. p_Name q \<notin> insert (p_Name p) seen) ps"
    by (auto intro!: filter_cong)
  with Cons show ?case by auto
qed

lemma collectBases_collectedFrom:
  "collectBases n g es visited seen result =
     (case collectedFrom n g es visited of
        None \<Rightarrow> None
      | Some (ps, visited1) \<Rightarrow>
          Some (visited1, seen \<union> p_Name ` set ps,
                result @ firstWins (filter (\<lambda>p. p_Name p \<notin> seen) ps)))"
proof (induction es arbitrary: visited seen result)
  case Nil
  then show ?case by simp
next
  case (Cons e es)
  have step: "firstWins (filter (\<lambda>p. p_Name p \<notin> seen) ps) @
        firstWins (filter (\<lambda>p. p_Name p \<notin> seen \<and> p_Name p \<notin> p_Name ` set ps) qs) =
        firstWins (filter (\<lambda>p. p_Name p \<notin> seen) ps @ filter (\<lambda>p. p_Name p \<notin> seen) qs)"
    for ps qs
  proof -
    have "filter (\<lambda>q. p_Name q \<notin> p_Name ` set (filter (\<lambda>p. p_Name p \<notin> seen) ps))
            (filter (\<lambda>p. p_Name p \<notin> seen) qs) =
          filter (\<lambda>p. p_Name p \<notin> seen \<and> p_Name p \<notin> p_Name ` set ps) qs"
      by (auto intro!: filter_cong)
    then show ?thesis by (simp add: firstWins_append)
  qed
  show ?case
    by (simp add: Cons appendUnseen_firstWins step Un_assoc image_Un
        split: option.splits prod.splits)
qed

lemma collectPropertiesImpl_spec:
  "collectPropertiesImpl (Suc n) g s visited =
     (if s_Name s \<in> set visited then Some ([], visited)
      else
        (case collectedFrom n g (s_Extends s) (s_Name s # visited) of
           None \<Rightarrow> None
         | Some (es, visited1) \<Rightarrow>
             (case collectedFrom n g (s_Mixins s) visited1 of
                None \<Rightarrow> None
              | Some (ms, visited2) \<Rightarrow>
                  Some (firstWins (s_Properties s @ es @ ms), visited2))))"
proof -
  have step: "firstWins own @
        firstWins (filter (\<lambda>p. p_Name p \<notin> p_Name ` set own) es) @
        firstWins (filter (\<lambda>p. p_Name p \<notin> p_Name ` set own \<and> p_Name p \<notin> p_Name ` set es) ms) =
        firstWins (own @ es @ ms)" for own es ms
  proof -
    have "filter (\<lambda>q. p_Name q \<notin> p_Name ` set (filter (\<lambda>p. p_Name p \<notin> p_Name ` set own) es))
            (filter (\<lambda>p. p_Name p \<notin> p_Name ` set own) ms) =
          filter (\<lambda>p. p_Name p \<notin> p_Name ` set own \<and> p_Name p \<notin> p_Name ` set es) ms"
      by (auto intro!: filter_cong)
    then show ?thesis by (simp add: firstWins_append)
  qed
  show ?thesis
    by (simp add: appendUnseen_firstWins collectBases_collectedFrom step
        split: option.splits prod.splits)
qed

lemma visited_grows:
  "collectPropertiesImpl n g s visited = Some (ps, visited') \<Longrightarrow>
     (\<exists>new. visited' = new @ visited) \<and> (distinct visited \<longrightarrow> distinct visited') \<and>
     s_Name s \<in> set visited'"
  "collectBases n g es visited seen result = Some (visited', seen', result') \<Longrightarrow>
     (\<exists>new. visited' = new @ visited) \<and> (distinct visited \<longrightarrow> distinct visited')"
proof (induction n g s visited and n g es visited seen result
    arbitrary: ps visited' and visited' seen' result'
    rule: collectPropertiesImpl_collectBases.induct)
  case (1 g s visited)
  then show ?case by (auto split: if_splits)
next
  case (2 n g s visited)
  show ?case
  proof (cases "s_Name s \<in> set visited")
    case True
    with 2(3) show ?thesis by auto
  next
    case False
    obtain seen result where au: "appendUnseen (s_Properties s) {} [] = (seen, result)"
      by (cases "appendUnseen (s_Properties s) {} []") auto
    from 2(3) False au obtain v1 seen1 result1 seen2 where
      b1: "collectBases n g (s_Extends s) (s_Name s # visited) seen result = Some (v1, seen1, result1)"
      and b2: "collectBases n g (s_Mixins s) v1 seen1 result1 = Some (visited', seen2, ps)"
      by (auto split: option.splits)
    from 2(1) [OF False au [symmetric] b1]
    have g1: "(\<exists>new. v1 = new @ s_Name s # visited)"
      "distinct (s_Name s # visited) \<longrightarrow> distinct v1" by auto
    from 2(2) [OF False au [symmetric] b1 refl refl b2]
    have g2: "(\<exists>new. visited' = new @ v1)" "distinct v1 \<longrightarrow> distinct visited'" by auto
    from g1 g2 False show ?thesis by auto
  qed
next
  case (3 n g visited seen result)
  then show ?case by auto
next
  case (4 n g ext exts visited seen result)
  show ?case
  proof (cases "t_Kind ext = ''reference''")
    case False
    with 4(4) [OF False] 4(5) show ?thesis by auto
  next
    case True
    show ?thesis
    proof (cases "structs g (t_Name ext)")
      case None
      with 4(1) [OF True None] 4(5) True show ?thesis by auto
    next
      case (Some base)
      from 4(5) True Some obtain qs v1 where
        i: "collectPropertiesImpl n g base visited = Some (qs, v1)"
        by (auto split: option.splits)
      obtain seen1 result1 where au: "appendUnseen qs seen result = (seen1, result1)"
        by (cases "appendUnseen qs seen result") auto
      from 4(5) True Some i au have
        b: "collectBases n g exts v1 seen1 result1 = Some (visited', seen', result')"
        by auto
      from 4(2) [OF True Some i]
      have g1: "(\<exists>new. v1 = new @ visited)" "distinct visited \<longrightarrow> distinct v1" by auto
      from 4(3) [OF True Some i refl au [symmetric] b]
      have g2: "(\<exists>new. visited' = new @ v1)" "distinct v1 \<longrightarrow> distinct visited'" by auto
      from g1 g2 show ?thesis by auto
    qed
  qed
qed

lemma enough_fuel:
  "finite (dom (structs g)) \<Longrightarrow> \<forall>k b. structs g k = Some b \<longrightarrow> s_Name b = k \<Longrightarrow>
     s_Name s \<in> set visited \<or>
       card (dom (structs g) - insert (s_Name s) (set visited)) < n \<Longrightarrow>
     \<exists>r. collectPropertiesImpl n g s visited = Some r"
  "finite (dom (structs g)) \<Longrightarrow> \<forall>k b. structs g k = Some b \<longrightarrow> s_Name b = k \<Longrightarrow>
     card (dom (structs g) - set visited) \<le> n \<Longrightarrow>
     \<exists>r. collectBases n g es visited seen result = Some r"
proof (induction n g s visited and n g es visited seen result
    rule: collectPropertiesImpl_collectBases.induct)
  case (1 g s visited)
  from 1(3) show ?case by auto
next
  case (2 n g s visited)
  note fin = 2(3) and keyed = 2(4)
  show ?case
  proof (cases "s_Name s \<in> set visited")
    case True
    then show ?thesis by simp
  next
    case False
    obtain seen result where au: "appendUnseen (s_Properties s) {} [] = (seen, result)"
      by (cases "appendUnseen (s_Properties s) {} []") auto
    from 2(5) False have c: "card (dom (structs g) - set (s_Name s # visited)) \<le> n" by simp
    from 2(1) [OF False au [symmetric] fin keyed c] obtain v1 seen1 result1 where
      b1: "collectBases n g (s_Extends s) (s_Name s # visited) seen result = Some (v1, seen1, result1)"
      by (metis prod_cases3)
    from visited_grows(2) [OF b1] have "set (s_Name s # visited) \<subseteq> set v1" by auto
    then have "dom (structs g) - set v1 \<subseteq> dom (structs g) - set (s_Name s # visited)" by auto
    then have "card (dom (structs g) - set v1) \<le> card (dom (structs g) - set (s_Name s # visited))"
      using fin by (intro card_mono) auto
    with c have c1: "card (dom (structs g) - set v1) \<le> n" by simp
    from 2(2) [OF False au [symmetric] b1 refl refl fin keyed c1] obtain r2 where
      "collectBases n g (s_Mixins s) v1 seen1 result1 = Some r2" by auto
    with False au b1 show ?thesis by (cases r2) simp
  qed
next
  case (3 n g visited seen result)
  show ?case by simp
next
  case (4 n g ext exts visited seen result)
  note fin = 4(5) and keyed = 4(6) and c = 4(7)
  show ?case
  proof (cases "t_Kind ext = ''reference''")
    case False
    with 4(4) [OF False fin keyed c] show ?thesis by simp
  next
    case True
    show ?thesis
    proof (cases "structs g (t_Name ext)")
      case None
      with 4(1) [OF True None fin keyed c] True show ?thesis by simp
    next
      case (Some base)
      from keyed [rule_format, OF Some] have nm: "s_Name base = t_Name ext" .
      have "s_Name base \<in> set visited \<or>
            card (dom (structs g) - insert (s_Name base) (set visited)) < n"
      proof (cases "s_Name base \<in> set visited")
        case True
        then show ?thesis by simp
      next
        case False
        with Some nm have "dom (structs g) - insert (s_Name base) (set visited) \<subset>
            dom (structs g) - set visited" by auto
        then have "card (dom (structs g) - insert (s_Name base) (set visited)) <
            card (dom (structs g) - set visited)"
          using fin by (intro psubset_card_mono) auto
        with c show ?thesis by simp
      qed
      from 4(2) [OF True Some fin keyed this] obtain qs v1 where
        i: "collectPropertiesImpl n g base visited = Some (qs, v1)" by auto
      obtain seen1 result1 where au: "appendUnseen qs seen result = (seen1, result1)"
        by (cases "appendUnseen qs seen result") auto
      from visited_grows(1) [OF i] have "set visited \<subseteq> set v1" by auto
      then have "dom (structs g) - set v1 \<subseteq> dom (structs g) - set visited" by auto
      then have "card (dom (structs g) - set v1) \<le> card (dom (structs g) - set visited)"
        using fin by (intro card_mono) auto
      with c have c1: "card (dom (structs g) - set v1) \<le> n" by simp
      from 4(3) [OF True Some i refl au [symmetric] fin keyed c1] obtain r where
        "collectBases n g exts v1 seen1 result1 = Some r" by auto
      with True Some i au show ?thesis by (cases r) simp
    qed
  qed
qed

lemma more_fuel:
  "collectPropertiesImpl n g s visited = Some r \<Longrightarrow>
     collectPropertiesImpl (n + k) g s visited = Some r"
  "collectBases n g es visited seen result = Some r' \<Longrightarrow>
     collectBases (n + k) g es visited seen result = Some r'"
proof (induction n g s visited and n g es visited seen result
    arbitrary: r and r'
    rule: collectPropertiesImpl_collectBases.induct)
  case (1 g s visited)
  then show ?case by (cases k) (auto split: if_splits)
next
  case (2 n g s visited)
  show ?case
  proof (cases "s_Name s \<in> set visited")
    case True
    with 2(3) show ?thesis by simp
  next
    case False
    obtain seen result where au: "appendUnseen (s_Properties s) {} [] = (seen, result)"
      by (cases "appendUnseen (s_Properties s) {} []") auto
    from 2(3) False au obtain v1 seen1 result1 r2 where
      b1: "collectBases n g (s_Extends s) (s_Name s # visited) seen result = Some (v1, seen1, result1)"
      and b2: "collectBases n g (s_Mixins s) v1 seen1 result1 = Some r2"
      by (auto split: option.splits)
    from 2(1) [OF False au [symmetric] b1] 2(2) [OF False au [symmetric] b1 refl refl b2]
      2(3) False au b1 b2
    show ?thesis by simp
  qed
next
  case (3 n g visited seen result)
  then show ?case by simp
next
  case (4 n g ext exts visited seen result)
  show ?case
  proof (cases "t_Kind ext = ''reference''")
    case False
    with 4(4) [OF False] 4(5) show ?thesis by simp
  next
    case True
    show ?thesis
    proof (cases "structs g (t_Name ext)")
      case None
      with 4(1) [OF True None] 4(5) True show ?thesis by simp
    next
      case (Some base)
      from 4(5) True Some obtain qs v1 where
        i: "collectPropertiesImpl n g base visited = Some (qs, v1)"
        by (auto split: option.splits)
      obtain seen1 result1 where au: "appendUnseen qs seen result = (seen1, result1)"
        by (cases "appendUnseen qs seen result") auto
      from 4(5) True Some i au have
        b: "collectBases n g exts v1 seen1 result1 = Some r'" by simp
      from 4(2) [OF True Some i] 4(3) [OF True Some i refl au [symmetric] b] True Some i au
      show ?thesis by simp
    qed
  qed
qed

lemma dom_indexStructures:
  "dom (indexStructures ss idx) = dom idx \<union> s_Name ` set ss"
  by (induction ss arbitrary: idx) simp_all

lemma keyed_indexStructures:
  "\<forall>k b. idx k = Some b \<longrightarrow> s_Name b = k \<Longrightarrow>
   \<forall>k b. indexStructures ss idx k = Some b \<longrightarrow> s_Name b = k"
proof (induction ss arbitrary: idx)
  case Nil
  then show ?case by (simp only: indexStructures.simps)
next
  case (Cons a ss)
  have "\<forall>k b. (idx(s_Name a \<mapsto> a)) k = Some b \<longrightarrow> s_Name b = k"
  proof (intro allI impI)
    fix k b
    assume h: "(idx(s_Name a \<mapsto> a)) k = Some b"
    show "s_Name b = k"
    proof (cases "k = s_Name a")
      case True
      with h show ?thesis by simp
    next
      case False
      with h have "idx k = Some b" by simp
      with Cons.prems show ?thesis by blast
    qed
  qed
  from Cons.IH [OF this] show ?case by (simp only: indexStructures.simps)
qed

lemma collectProperties_total:
  "\<exists>r. collectPropertiesImpl (Suc (length (m_Structures m))) (NewGenerator m) s [] = Some r"
proof -
  let ?g = "NewGenerator m"
  have d: "dom (structs ?g) = s_Name ` set (m_Structures m)"
    by (simp add: NewGenerator_def dom_indexStructures)
  have fin: "finite (dom (structs ?g))" by (simp add: d)
  have idx: "structs ?g = indexStructures (m_Structures m) Map.empty"
    by (simp add: NewGenerator_def)
  have keyed: "\<forall>k b. structs ?g k = Some b \<longrightarrow> s_Name b = k"
    unfolding idx by (rule keyed_indexStructures) simp
  have "card (dom (structs ?g)) \<le> length (m_Structures m)"
    unfolding d by (metis card_image_le card_length le_trans List.finite_set)
  moreover have "card (dom (structs ?g) - insert (s_Name s) (set []))
      \<le> card (dom (structs ?g))"
    using fin by (intro card_mono) auto
  ultimately have "card (dom (structs ?g) - insert (s_Name s) (set []))
      < Suc (length (m_Structures m))" by simp
  then show ?thesis
    using enough_fuel(1) [OF fin keyed, of s "[]" "Suc (length (m_Structures m))"] by blast
qed

text \<open>
  Claim C1. The field list of a structure is its own properties in declared order, then
  the properties collected from each \<^verbatim>\<open>extends\<close> entry in declaration order, then those
  from each \<^verbatim>\<open>mixins\<close> entry, and of several properties of one name only the first
  stays. The first equation is the collector at any depth of the recursion, the second is
  a whole query. (The types file then writes one field for each property of this list
  that is not proposed.)
\<close>

theorem collectProperties_own_extends_mixins:
  "collectPropertiesImpl (Suc n) g s visited =
     (if s_Name s \<in> set visited then Some ([], visited)
      else
        (case collectedFrom n g (s_Extends s) (s_Name s # visited) of
           None \<Rightarrow> None
         | Some (es, visited1) \<Rightarrow>
             (case collectedFrom n g (s_Mixins s) visited1 of
                None \<Rightarrow> None
              | Some (ms, visited2) \<Rightarrow>
                  Some (firstWins (s_Properties s @ es @ ms), visited2)))) \<and>
   collectProperties g s =
     (case collectedFrom (length (m_Structures (Model g))) g (s_Extends s) [s_Name s] of
        None \<Rightarrow> None
      | Some (es, visited1) \<Rightarrow>
          (case collectedFrom (length (m_Structures (Model g))) g (s_Mixins s) visited1 of
             None \<Rightarrow> None
           | Some (ms, visited2) \<Rightarrow> Some (firstWins (s_Properties s @ es @ ms))))"
  by (simp only: collectProperties_def collectPropertiesImpl_spec)
    (simp split: option.splits)

theorem collectProperties_own_extends_mixins_witness:
  "collectProperties (NewGenerator ex_cyclic) ex_A =
     Some [ex_prop ''A'' ''x'', ex_prop ''A'' ''y'', ex_prop ''B'' ''z'']"
  using collectProperties_own_extends_mixins [of 2 "NewGenerator ex_cyclic" ex_A "[]"]
  by (simp add: ex_defs NewGenerator_def)

text \<open>
  Claim C6. A query returns a property list for every structure of every model, cyclic or
  not: the fuel of \<open>collectProperties\<close> is enough, and more fuel changes nothing. A call
  on a structure whose name is already visited returns the empty list and leaves the
  visited names as they are. Every call that runs marks its structure and only adds to the
  visited names, and never marks a name twice: no structure is expanded more than once in
  a query.
\<close>

theorem collectProperties_terminates:
  "(\<exists>ps. collectProperties (NewGenerator m) s = Some ps) \<and>
   (\<forall>k. collectPropertiesImpl (Suc (length (m_Structures m)) + k) (NewGenerator m) s [] =
      collectPropertiesImpl (Suc (length (m_Structures m))) (NewGenerator m) s []) \<and>
   (s_Name s \<in> set visited \<longrightarrow> collectPropertiesImpl n g s visited = Some ([], visited)) \<and>
   (collectPropertiesImpl n g s visited = Some (ps, visited') \<longrightarrow>
      s_Name s \<in> set visited' \<and> (\<exists>new. visited' = new @ visited) \<and>
      (distinct visited \<longrightarrow> distinct visited'))"
proof (intro conjI allI impI)
  obtain r where r: "collectPropertiesImpl (Suc (length (m_Structures m))) (NewGenerator m) s [] = Some r"
    using collectProperties_total by blast
  then show "\<exists>ps. collectProperties (NewGenerator m) s = Some ps"
    by (simp add: collectProperties_def NewGenerator_def)
  show "collectPropertiesImpl (Suc (length (m_Structures m)) + k) (NewGenerator m) s [] =
      collectPropertiesImpl (Suc (length (m_Structures m))) (NewGenerator m) s []" for k
    using more_fuel(1) [OF r, of k] r by simp
next
  assume "s_Name s \<in> set visited"
  then show "collectPropertiesImpl n g s visited = Some ([], visited)"
    by (cases n) simp_all
next
  assume h: "collectPropertiesImpl n g s visited = Some (ps, visited')"
  from visited_grows(1) [OF h] show "s_Name s \<in> set visited'" by simp
  from visited_grows(1) [OF h] show "\<exists>new. visited' = new @ visited" by simp
  assume "distinct visited"
  with visited_grows(1) [OF h] show "distinct visited'" by simp
qed

theorem collectProperties_terminates_witness:
  "collectPropertiesImpl 3 (NewGenerator ex_cyclic) ex_A [] =
     Some ([ex_prop ''A'' ''x'', ex_prop ''A'' ''y'', ex_prop ''B'' ''z''], [''B'', ''A'']) \<and>
   collectPropertiesImpl 0 (NewGenerator ex_cyclic) ex_A [''B'', ''A''] = Some ([], [''B'', ''A'']) \<and>
   distinct [''B'', ''A'']"
  using collectProperties_terminates [of ex_cyclic ex_A "[''B'', ''A'']" 0 "NewGenerator ex_cyclic"]
  by (simp add: ex_defs NewGenerator_def eval_nat_numeral)

lemma collectBases_skip:
  "t_Kind e \<noteq> ''reference'' \<or> structs g (t_Name e) = None \<Longrightarrow>
   collectBases n g (es1 @ e # es2) visited seen result =
   collectBases n g (es1 @ es2) visited seen result"
  by (induction es1 arbitrary: visited seen result)
    (auto split: option.splits prod.splits)

text \<open>
  Claim C9. An \<^verbatim>\<open>extends\<close> or \<^verbatim>\<open>mixins\<close> entry whose kind is not \<^verbatim>\<open>reference\<close>, or
  whose name is not in the structure index, contributes nothing and fails nothing: the
  loop over the entries, and the whole query, give what they give without the entry.
\<close>

theorem dangling_base_ignored:
  "t_Kind e \<noteq> ''reference'' \<or> structs g (t_Name e) = None \<Longrightarrow>
   collectBases n g (es1 @ e # es2) visited seen result =
     collectBases n g (es1 @ es2) visited seen result \<and>
   collectProperties g (s\<lparr>s_Extends := es1 @ e # es2\<rparr>) =
     collectProperties g (s\<lparr>s_Extends := es1 @ es2\<rparr>) \<and>
   collectProperties g (s\<lparr>s_Mixins := es1 @ e # es2\<rparr>) =
     collectProperties g (s\<lparr>s_Mixins := es1 @ es2\<rparr>)"
  by (simp add: collectBases_skip collectProperties_def
      cong: option.case_cong prod.case_cong)

theorem dangling_base_ignored_witness:
  "structs (NewGenerator ex_cyclic) (t_Name (ex_ref ''Missing'')) = None \<and>
   collectProperties (NewGenerator ex_cyclic) (ex_A\<lparr>s_Mixins := [ex_string] @ ex_ref ''Missing'' # []\<rparr>) =
   collectProperties (NewGenerator ex_cyclic) (ex_A\<lparr>s_Mixins := [ex_string] @ []\<rparr>)"
  using dangling_base_ignored [of "ex_ref ''Missing''" "NewGenerator ex_cyclic" _ "[ex_string]" "[]" _ _ _ ex_A]
  by (simp add: ex_defs NewGenerator_def)

section \<open>Type resolution: results\<close>

lemma nonNullItems_filter:
  "nonNullItems items nonNull = nonNull @ filter (\<lambda>t. \<not> isNull t) items"
  by (induction items arbitrary: nonNull) (simp_all add: isNull_def)

lemma hasNull_iff:
  "length (filter (\<lambda>t. \<not> isNull t) items) < length items \<longleftrightarrow> list_ex isNull items"
  by (induction items) (auto simp: less_Suc_eq_le le_imp_less_Suc)

lemma needsPointerForNull_iff: "needsPointerForNull goType \<longleftrightarrow> \<not> nilRepresentable goType"
  by (auto simp: needsPointerForNull_def nilRepresentable_def HasPrefix_def eval_nat_numeral)

text \<open>
  Claim C2. A union is resolved from its items other than \<^verbatim>\<open>null\<close>. When exactly one is
  left, the result is the resolved type of that item, behind a pointer if and only if the
  union had a \<^verbatim>\<open>null\<close> item and the resolved type is not nil-representable already
  (slices, maps, \<^verbatim>\<open>any\<close> and pointers stay bare); the generator is the one the item's
  resolution leaves. Otherwise, and so whenever two or more items are left, the result is
  \<^verbatim>\<open>any\<close> and no item is resolved.
\<close>

theorem resolveUnion_nullable_lifting:
  "resolveUnion items g =
     (case filter (\<lambda>t. \<not> isNull t) items of
        [item] \<Rightarrow>
          (case resolveGoType (Some item) g of
             (resolved, g1) \<Rightarrow>
               (if list_ex isNull items \<and> \<not> nilRepresentable resolved
                then (''*'' @ resolved, g1) else (resolved, g1)))
      | _ \<Rightarrow> (''any'', g)) \<and>
   (2 \<le> length (filter (\<lambda>t. \<not> isNull t) items) \<longrightarrow> resolveUnion items g = (''any'', g))"
proof -
  have eq: "resolveUnion items g =
     (case filter (\<lambda>t. \<not> isNull t) items of
        [item] \<Rightarrow>
          (case resolveGoType (Some item) g of
             (resolved, g1) \<Rightarrow>
               (if list_ex isNull items \<and> \<not> nilRepresentable resolved
                then (''*'' @ resolved, g1) else (resolved, g1)))
      | _ \<Rightarrow> (''any'', g))"
  proof (cases "\<exists>item. filter (\<lambda>t. \<not> isNull t) items = [item]")
    case True
    then obtain item where it: "filter (\<lambda>t. \<not> isNull t) items = [item]" by blast
    have "length [item] < length items \<longleftrightarrow> list_ex isNull items"
      using hasNull_iff [of items] by (simp only: it)
    with it show ?thesis
      by (simp add: nonNullItems_filter needsPointerForNull_iff split: prod.splits)
  next
    case False
    then show ?thesis
      by (simp add: nonNullItems_filter split: list.splits)
  qed
  moreover have "resolveUnion items g = (''any'', g)"
    if "2 \<le> length (filter (\<lambda>t. \<not> isNull t) items)"
    using that unfolding eq by (auto split: list.splits)
  ultimately show ?thesis by blast
qed

theorem resolveUnion_nullable_lifting_witness:
  "resolveUnion [ex_base ''integer'', ex_base ''null''] (NewGenerator ex_cyclic) =
     (''*int32'', NewGenerator ex_cyclic) \<and>
   resolveUnion [ex_array (ex_ref ''CompletionItem''), ex_base ''null'']
     (NewGenerator ex_cyclic) = (''[]CompletionItem'', NewGenerator ex_cyclic) \<and>
   2 \<le> length (filter (\<lambda>t. \<not> isNull t)
     [ex_ref ''MarkupContent'', ex_ref ''MarkedString'', ex_array (ex_ref ''MarkedString'')]) \<and>
   resolveUnion
     [ex_ref ''MarkupContent'', ex_ref ''MarkedString'', ex_array (ex_ref ''MarkedString'')]
     (NewGenerator ex_cyclic) = (''any'', NewGenerator ex_cyclic)"
  using resolveUnion_nullable_lifting
      [of "[ex_base ''integer'', ex_base ''null'']" "NewGenerator ex_cyclic"]
    resolveUnion_nullable_lifting
      [of "[ex_array (ex_ref ''CompletionItem''), ex_base ''null'']" "NewGenerator ex_cyclic"]
    resolveUnion_nullable_lifting
      [of "[ex_ref ''MarkupContent'', ex_ref ''MarkedString'', ex_array (ex_ref ''MarkedString'')]"
        "NewGenerator ex_cyclic"]
  by (simp add: ex_type_defs isNull_def nilRepresentable_def resolveBaseType_def)

section \<open>Numeric enumeration values: results\<close>

lemma digits_value: "foldl (\<lambda>n d. 10 * n + digitValue d) 0 (digits n) = int n"
proof (induction n rule: digits.induct)
  case (1 n)
  show ?case
  proof (cases "n < 10")
    case True
    then show ?thesis
      by (subst digits.simps) (simp add: digitValue_def)
  next
    case False
    have "n mod 10 < 10" by simp
    then have d: "digitValue (char_of (48 + n mod 10)) = int (n mod 10)"
      by (simp add: digitValue_def)
    have e: "10 * int (n div 10) + int (n mod 10) = int n"
      by (simp add: zdiv_int zmod_int)
    from False 1 show ?thesis
      by (subst digits.simps) (simp add: d e)
  qed
qed

lemma digits_no_minus: "c \<in> set (digits n) \<Longrightarrow> c \<noteq> CHR ''-''"
proof (induction n arbitrary: c rule: digits.induct)
  case (1 n)
  have k: "char_of (48 + k) \<noteq> CHR ''-''" if "k < 10" for k :: nat
  proof
    assume "char_of (48 + k) = CHR ''-''"
    then have "(of_char (char_of (48 + k)) :: nat) = of_char CHR ''-''" by simp
    with that show False by simp
  qed
  show ?case
  proof (cases "n < 10")
    case True
    with 1(2) k [of n] show ?thesis by (subst (asm) digits.simps) simp
  next
    case False
    have "n mod 10 < 10" by simp
    from k [OF this] False 1 show ?thesis by (subst (asm) digits.simps) auto
  qed
qed

lemma digits_nonempty: "digits n \<noteq> []"
  by (subst digits.simps) simp

lemma decimalValue_digits: "decimalValue (digits n) = int n"
proof -
  obtain c cs where cs: "digits n = c # cs" using digits_nonempty [of n] by (cases "digits n") auto
  then have "c \<noteq> CHR ''-''" using digits_no_minus [of c n] by simp
  with cs digits_value [of n] show ?thesis by (simp add: decimalValue_def)
qed

lemma decimalValue_FormatInt: "decimalValue (FormatInt v) = sint v"
proof (cases "sint v < 0")
  case True
  then show ?thesis using digits_value [of "nat (- sint v)"]
    by (simp add: FormatInt_def decimalValue_def)
next
  case False
  then show ?thesis using decimalValue_digits [of "nat (sint v)"]
    by (simp add: FormatInt_def)
qed

lemma sint_truncate:
  "- (2 ^ 63) \<le> t \<Longrightarrow> t < 2 ^ 63 \<Longrightarrow> sint (word_of_int t :: 64 word) = t"
  by (simp add: sint_sbintrunc' signed_take_bit_int_eq_self)

lemma truncateToZero_bounds:
  "\<bar>of_int (truncateToZero q)\<bar> \<le> \<bar>q\<bar> \<and> \<bar>q\<bar> < \<bar>of_int (truncateToZero q)\<bar> + 1 \<and>
   (0 \<le> q \<longrightarrow> 0 \<le> truncateToZero q) \<and> (q \<le> 0 \<longrightarrow> truncateToZero q \<le> 0)"
proof (cases "0 \<le> q")
  case True
  then have "0 \<le> \<lfloor>q\<rfloor>" by simp
  moreover have "of_int \<lfloor>q\<rfloor> \<le> q" "q < of_int \<lfloor>q\<rfloor> + 1" by linarith+
  ultimately show ?thesis using True by (auto simp: truncateToZero_def)
next
  case False
  then have "\<lceil>q\<rceil> \<le> 0" by (simp add: ceiling_le_iff)
  moreover have "q \<le> of_int \<lceil>q\<rceil>" "of_int \<lceil>q\<rceil> < q + 1" by linarith+
  ultimately show ?thesis using False by (auto simp: truncateToZero_def)
qed

text \<open>
  Claim C10. In an enumeration whose Go base type is not \<^verbatim>\<open>string\<close>, the initializer of
  a value that is not proposed is \<open>formatNumericValue\<close> of the value. For a \<^verbatim>\<open>float64\<close>
  that is the decimal numeral of the value truncated towards zero, whenever the
  truncation is an \<^verbatim>\<open>int64\<close> (otherwise Go leaves the conversion to the implementation):
  no fraction is rejected. \<^verbatim>\<open>int64\<close> and \<^verbatim>\<open>int\<close> values are formatted exactly, the numeral
  read back being the value.
\<close>

theorem numeric_enum_value_truncated:
  "(- (2 ^ 63) \<le> truncateToZero q \<and> truncateToZero q < 2 ^ 63 \<longrightarrow>
      formatNumericValue rt (AFloat64 (Finite q)) = FormatInt (word_of_int (truncateToZero q)) \<and>
      decimalValue (formatNumericValue rt (AFloat64 (Finite q))) = truncateToZero q) \<and>
   \<bar>of_int (truncateToZero q)\<bar> \<le> \<bar>q\<bar> \<and> \<bar>q\<bar> < \<bar>of_int (truncateToZero q)\<bar> + 1 \<and>
   (0 \<le> q \<longrightarrow> 0 \<le> truncateToZero q) \<and> (q \<le> 0 \<longrightarrow> truncateToZero q \<le> 0) \<and>
   formatNumericValue rt (AInt64 i) = FormatInt i \<and>
   formatNumericValue rt (AInt i) = FormatInt i \<and>
   decimalValue (FormatInt i) = sint i \<and>
   (\<not> v_Proposed val \<and> resolveEnumBaseType (e_Type enum) \<noteq> ''string'' \<longrightarrow>
      writeEnumValues rt enum [val] =
        writeFieldDoc rt (v_Documentation val) @
        TAB @ GoEnumValueName (e_Name enum) (v_Name val) @ '' '' @ e_Name enum @ '' = '' @
        formatNumericValue rt (v_Value val) @ NL)"
proof -
  have "formatNumericValue rt (AFloat64 (Finite q)) = FormatInt (word_of_int (truncateToZero q)) \<and>
      decimalValue (formatNumericValue rt (AFloat64 (Finite q))) = truncateToZero q"
    if "- (2 ^ 63) \<le> truncateToZero q" "truncateToZero q < 2 ^ 63"
    using that sint_truncate [OF that]
    by (simp add: formatNumericValue_def int64_of_float64_def decimalValue_FormatInt)
  moreover have "formatNumericValue rt (AInt64 i) = FormatInt i"
    "formatNumericValue rt (AInt i) = FormatInt i"
    by (simp_all add: formatNumericValue_def)
  moreover have "writeEnumValues rt enum [val] =
        writeFieldDoc rt (v_Documentation val) @
        TAB @ GoEnumValueName (e_Name enum) (v_Name val) @ '' '' @ e_Name enum @ '' = '' @
        formatNumericValue rt (v_Value val) @ NL"
    if "\<not> v_Proposed val" "resolveEnumBaseType (e_Type enum) \<noteq> ''string''"
    using that by simp
  ultimately show ?thesis
    using truncateToZero_bounds [of q] decimalValue_FormatInt [of i] by blast
qed

text \<open>
  The witness is the \<^verbatim>\<open>float64\<close> nearest to 2.9, which is
  \<open>6530219459687219 / 2\<^sup>5\<^sup>1\<close>, as a value of an \<^verbatim>\<open>integer\<close> enumeration.
\<close>

theorem numeric_enum_value_truncated_witness:
  "truncateToZero (6530219459687219 / 2251799813685248) = 2 \<and>
   writeEnumValues ex_rt ex_enum [ex_value] = TAB @ ''KindTwo Kind = 2'' @ NL"
proof -
  have t: "truncateToZero (6530219459687219 / 2251799813685248) = 2"
    by (simp add: truncateToZero_def floor_eq_iff)
  have "\<not> v_Proposed ex_value \<and> resolveEnumBaseType (e_Type ex_enum) \<noteq> ''string''"
    by (simp add: ex_value_def ex_enum_def resolveEnumBaseType_def)
  with numeric_enum_value_truncated
    [of "6530219459687219 / 2251799813685248" ex_rt _ ex_value ex_enum] t
  show ?thesis
    by (simp add: ex_value_def ex_enum_def ex_rt_def writeFieldDoc_def GoEnumValueName_def
        eval_strings)
qed

section \<open>Method planning: results\<close>

lemma overridePass_fst: "fst (overridePass idx ms pinned) = map overridden ms"
proof (induction ms arbitrary: idx pinned)
  case Nil
  then show ?case by simp
next
  case (Cons m ms)
  obtain a b where r1: "overridePass (Suc idx) ms pinned = (a, b)"
    by (cases "overridePass (Suc idx) ms pinned") auto
  obtain c d where r2: "overridePass (Suc idx) ms (insert idx pinned) = (c, d)"
    by (cases "overridePass (Suc idx) ms (insert idx pinned)") auto
  from Cons [of "Suc idx" pinned] Cons [of "Suc idx" "insert idx pinned"] r1 r2
  show ?case
    by (simp add: overridden_def pinnedName_def split: option.splits)
qed

lemma overridePass_snd:
  "j \<in> snd (overridePass idx ms pinned) \<longleftrightarrow>
     j \<in> pinned \<or> (idx \<le> j \<and> j < idx + length ms \<and> pinnedName (ms ! (j - idx)) \<noteq> None)"
proof (induction ms arbitrary: idx pinned)
  case Nil
  then show ?case by auto
next
  case (Cons m ms)
  have step: "(idx \<le> j \<and> j < idx + length (m # ms) \<and> pinnedName ((m # ms) ! (j - idx)) \<noteq> None)
      \<longleftrightarrow> (j = idx \<and> pinnedName m \<noteq> None) \<or>
        (Suc idx \<le> j \<and> j < Suc idx + length ms \<and> pinnedName (ms ! (j - Suc idx)) \<noteq> None)"
  proof (cases "j = idx")
    case True
    then show ?thesis by simp
  next
    case False
    show ?thesis
    proof (cases "idx \<le> j")
      case True
      with False have "j - idx = Suc (j - Suc idx)" by simp
      then have "(m # ms) ! (j - idx) = ms ! (j - Suc idx)" by simp
      with True False show ?thesis by auto
    next
      case False
      then show ?thesis by auto
    qed
  qed
  show ?case
  proof (cases "pinnedName m")
    case None
    then have "snd (overridePass idx (m # ms) pinned) = snd (overridePass (Suc idx) ms pinned)"
      by (simp add: pinnedName_def split: prod.splits)
    then show ?thesis
      unfolding step using Cons [of "Suc idx" pinned] None by simp
  next
    case (Some ov)
    then have "snd (overridePass idx (m # ms) pinned) =
        snd (overridePass (Suc idx) ms (insert idx pinned))"
      by (simp add: pinnedName_def split: prod.splits)
    then show ?thesis
      unfolding step using Cons [of "Suc idx" "insert idx pinned"] Some by auto
  qed
qed

lemma countPass_count:
  "countPass ms counts name = counts name + int (length (filter (\<lambda>m. goName m = name) ms))"
  by (induction ms arbitrary: counts) auto

lemma renamePass_map:
  "(\<And>i. i < length ms \<Longrightarrow> idx + i \<in> pinned \<longleftrightarrow> pinnedName (ms ! i) \<noteq> None) \<Longrightarrow>
   renamePass idx ms pinned counts =
     map (\<lambda>m. if pinnedName m \<noteq> None then m
               else if 1 < counts (goName m) then rename m (GoMethodNameFull (lspMethod m))
               else m) ms"
proof (induction ms arbitrary: idx)
  case Nil
  then show ?case by simp
next
  case (Cons m ms)
  have hd: "idx \<in> pinned \<longleftrightarrow> pinnedName m \<noteq> None" using Cons.prems [of 0] by simp
  have "\<And>i. i < length ms \<Longrightarrow> Suc idx + i \<in> pinned \<longleftrightarrow> pinnedName (ms ! i) \<noteq> None"
    using Cons.prems [of "Suc i" for i] by simp
  from Cons.IH [OF this] hd show ?case by simp
qed

lemma pinnedName_rename: "pinnedName (rename m name) = pinnedName m"
  by (simp add: pinnedName_def rename_def)

lemma pinnedName_overridden: "pinnedName (overridden m) = pinnedName m"
  by (simp add: overridden_def pinnedName_rename split: option.splits)

lemma goName_overridden: "goName (overridden m) = nameAfterOverrides m"
  by (simp add: overridden_def nameAfterOverrides_def rename_def split: option.splits)

lemma lspMethod_renamePass:
  "map lspMethod (renamePass idx ms pinned counts) = map lspMethod ms"
  by (induction ms arbitrary: idx) (simp_all add: rename_def)

lemma lspMethod_disambiguateMethods:
  "map lspMethod (disambiguateMethods methods) = map lspMethod methods"
proof -
  obtain ms1 pinned where op: "overridePass 0 methods {} = (ms1, pinned)"
    by (cases "overridePass 0 methods {}") auto
  have "ms1 = map overridden methods" using overridePass_fst [of 0 methods "{}"] op by simp
  moreover have "lspMethod (overridden m) = lspMethod m" for m
    by (simp add: overridden_def rename_def split: option.splits)
  ultimately show ?thesis
    by (simp add: disambiguateMethods_def op lspMethod_renamePass o_def)
qed

text \<open>
  Claim C3, as amended. The override map is applied first and a pinned method keeps its
  pinned name whatever collides with it. The names are then counted across all methods, a
  pinned method counting under its pinned name, and every method that is not pinned and
  whose short name is counted more than once is renamed to its full name; every other
  field of a record, and the records' order, stay.
\<close>

theorem disambiguateMethods_counts_all:
  "disambiguateMethods methods =
     map (\<lambda>m. case pinnedName m of
                 Some override \<Rightarrow> rename m override
               | None \<Rightarrow>
                   if 1 < nameCount methods (goName m)
                   then rename m (GoMethodNameFull (lspMethod m)) else m) methods"
proof -
  obtain ms1 pinned where op: "overridePass 0 methods {} = (ms1, pinned)"
    by (cases "overridePass 0 methods {}") auto
  have ms1: "ms1 = map overridden methods" using overridePass_fst [of 0 methods "{}"] op by simp
  have pin: "i \<in> pinned \<longleftrightarrow> pinnedName (ms1 ! i) \<noteq> None" if "i < length ms1" for i
    using overridePass_snd [of i 0 methods "{}"] op that
    by (simp add: ms1 pinnedName_overridden)
  have cnt: "countPass ms1 (\<lambda>name. 0) name = int (nameCount methods name)" for name
    by (simp add: countPass_count ms1 nameCount_def filter_map o_def goName_overridden)
  have "disambiguateMethods methods =
      map (\<lambda>m. if pinnedName m \<noteq> None then m
               else if 1 < countPass ms1 (\<lambda>name. 0) (goName m)
                 then rename m (GoMethodNameFull (lspMethod m))
               else m) ms1"
    unfolding disambiguateMethods_def op using pin by (simp add: renamePass_map)
  also have "\<dots> = map (\<lambda>m. case pinnedName m of
                 Some override \<Rightarrow> rename m override
               | None \<Rightarrow>
                   if 1 < nameCount methods (goName m)
                   then rename m (GoMethodNameFull (lspMethod m)) else m) methods"
    unfolding cnt unfolding ms1
    by (auto simp: pinnedName_rename overridden_def split: option.splits)
  finally show ?thesis .
qed

theorem disambiguateMethods_counts_all_witness:
  "map goName (disambiguateMethods ex_diagnostic) = [''Diagnostic'', ''WorkspaceDiagnostic'']"
  using disambiguateMethods_counts_all [of ex_diagnostic]
  by (simp add: ex_diagnostic_def ex_method_def nameCount_def nameAfterOverrides_def
      eval_names eval_strings)

text \<open>
  Claim C3 as it is stated counts the short names across the methods that are not pinned.
  For \<^verbatim>\<open>textDocument/didOpen\<close>, which is pinned to \<^verbatim>\<open>DidOpen\<close>, and
  \<^verbatim>\<open>notebookDocument/didOpen\<close>, that count of \<^verbatim>\<open>DidOpen\<close> is 1 and the second method
  would keep its short name; the code counts 2 and renames it.
\<close>

theorem unpinned_count_counterexample:
  "map goName (disambiguateAsClaimed ex_didOpen) = [''DidOpen'', ''DidOpen''] \<and>
   map goName (disambiguateMethods ex_didOpen) = [''DidOpen'', ''NotebookDocumentDidOpen'']"
  by (simp add: disambiguateAsClaimed_def disambiguateMethods_def unpinnedCount_def
      ex_didOpen_def ex_method_def eval_names eval_strings)

end
